theory Spec2Isabelle
  imports Complex_Main "HOL-Library.Log_Nat" "HOL-Library.Char_ord" "HOL-Library.List_Lexorder"
    "HOL-Library.Multiset"
begin

chapter \<open>Book review REST API: books, reviews and the rating aggregate\<close>

section \<open>JavaScript numbers\<close>

text \<open>
  A JavaScript Number is an IEEE 754 double. A finite double is a rational, so a Number is
  modelled by the rational it denotes. \<open>fl x\<close> is the double nearest to the rational
  \<open>x\<close> (53 significant bits, ties to the even significand); the exponent range is not
  bounded, which is exact for the magnitudes that occur here. Integers below \<open>2 ^ 53\<close>
  are doubles, so counters and sums of ratings are modelled as \<open>int\<close>.
\<close>

definition expo :: "rat \<Rightarrow> int" where
  "expo x = (let (a, b) = quotient_of x; d = bitlen a - bitlen b
             in if 2 powi d \<le> x then d else d - 1)"

definition rne :: "rat \<Rightarrow> int" where
  "rne x = (let f = \<lfloor>x\<rfloor>; d = x - of_int f
            in if d < 1/2 then f else if 1/2 < d then f + 1
               else if even f then f else f + 1)"

definition fl :: "rat \<Rightarrow> rat" where
  "fl x = (if x = 0 then 0
           else let a = \<bar>x\<bar>; u = 2 powi (expo a - 52)
                in sgn x * (of_int (rne (a / u)) * u))"

text \<open>
  \<open>Number.prototype.toFixed(2)\<close>: the decimal string with two fraction digits of the
  integer \<open>n\<close> for which \<open>n / 100 - x\<close> is closest to zero, the larger \<open>n\<close> when there
  are two; a negative \<open>x\<close> is negated first. The string is modelled by \<open>n\<close>, its value in
  hundredths. Mongoose casts the string back to a Number: \<open>Number_of_hundredths\<close>.
\<close>

definition toFixed2 :: "rat \<Rightarrow> int" where
  "toFixed2 x = (if x < 0 then - round (100 * (- x)) else round (100 * x))"

definition Number_of_hundredths :: "int \<Rightarrow> rat" where
  "Number_of_hundredths n = fl (of_int n / 100)"

text \<open>\<open>Math.ceil\<close> of a quotient of two integral Numbers; \<open>None\<close> is a non-finite result
  (division by zero), which \<open>res.json\<close> prints as \<open>null\<close>.\<close>

definition ceil_div :: "int \<Rightarrow> int \<Rightarrow> int option" where
  "ceil_div a b = (if b = 0 then None else Some \<lceil>fl (of_int a / of_int b)\<rceil>)"

section \<open>Strings\<close>

text \<open>Strings are lists of characters. \<open>trim\<close> removes white space at both ends; the
  white space modelled is that of ASCII.\<close>

definition isSpace :: "char \<Rightarrow> bool" where
  "isSpace c = (c \<in> set [CHR '' '', CHR 0x09, CHR 0x0A, CHR 0x0B, CHR 0x0C, CHR 0x0D])"

definition trim :: "string \<Rightarrow> string" where
  "trim s = rev (dropWhile isSpace (rev (dropWhile isSpace s)))"

definition digits :: "char list" where
  "digits = ''0123456789''"

definition isHexDigit :: "char \<Rightarrow> bool" where
  "isHexDigit c = (c \<in> set ''0123456789abcdefABCDEF'')"

definition toLowerHex :: "char \<Rightarrow> char" where
  "toLowerHex c = (if c = CHR ''A'' then CHR ''a'' else if c = CHR ''B'' then CHR ''b''
     else if c = CHR ''C'' then CHR ''c'' else if c = CHR ''D'' then CHR ''d''
     else if c = CHR ''E'' then CHR ''e'' else if c = CHR ''F'' then CHR ''f'' else c)"

text \<open>
  An ObjectId is twelve bytes; it is modelled by its canonical rendering
  (\<open>toString\<close>, \<open>toHexString\<close>): 24 lower-case hexadecimal digits. The validator
  \<open>isMongoId\<close> accepts 24 hexadecimal digits of either case, and Mongoose casts such a
  string to the ObjectId it denotes.
\<close>

type_synonym objectid = string

definition isMongoId :: "string \<Rightarrow> bool" where
  "isMongoId s = (length s = 24 \<and> list_all isHexDigit s)"

definition ObjectId_of :: "string \<Rightarrow> objectid" where
  "ObjectId_of s = map toLowerHex s"

definition castObjectId :: "string \<Rightarrow> objectid option" where
  "castObjectId s = (if isMongoId s then Some (ObjectId_of s) else None)"

definition toString :: "objectid \<Rightarrow> string" where
  "toString i = i"

text \<open>
  \<open>parseInt\<close> with no radix: leading white space, an optional sign, then the longest run
  of digits (hexadecimal after \<open>0x\<close>); \<open>None\<close> is \<open>NaN\<close>.
\<close>

definition digitVal :: "char \<Rightarrow> int" where
  "digitVal c = (if c \<in> set digits then int (of_char c) - 48
                 else if c \<in> set ''abcdef'' then int (of_char c) - 87
                 else int (of_char c) - 55)"

definition parseDigits :: "int \<Rightarrow> (char \<Rightarrow> bool) \<Rightarrow> string \<Rightarrow> int option" where
  "parseDigits radix ok s =
     (let ds = takeWhile ok s
      in if ds = [] then None else Some (foldl (\<lambda>n c. n * radix + digitVal c) 0 ds))"

definition parseUnsigned :: "string \<Rightarrow> int option" where
  "parseUnsigned s =
     (if take 2 s = ''0x'' \<or> take 2 s = ''0X'' then parseDigits 16 isHexDigit (drop 2 s)
      else parseDigits 10 (\<lambda>c. c \<in> set digits) s)"

definition parseInt :: "string \<Rightarrow> int option" where
  "parseInt str =
     (let s = dropWhile isSpace str
      in case s of
           [] \<Rightarrow> None
         | c # t \<Rightarrow> if c = CHR ''-'' then map_option uminus (parseUnsigned t)
                    else if c = CHR ''+'' then parseUnsigned t
                    else parseUnsigned s)"


section \<open>The ISBN pattern\<close>

text \<open>
  The fragment of JavaScript regular expressions that the ISBN validator of the Book
  schema uses: character classes, sequence, alternative, \<open>+\<close> on a class, positive
  lookahead \<open>(?=r)\<close> and the end anchor \<open>$\<close>. \<open>step r s\<close> lists the remainders of \<open>s\<close>
  after every way of matching \<open>r\<close> at its start; the pattern begins with \<open>^\<close>, so
  \<open>test\<close> matches at the start of the string only.
\<close>

datatype rx = Eps | Cls "char list" | Plus "char list" | Seq rx rx | Alt rx rx | Look rx | End

fun step :: "rx \<Rightarrow> string \<Rightarrow> string list" where
  "step Eps s = [s]"
| "step (Cls cs) s = (case s of [] \<Rightarrow> [] | c # t \<Rightarrow> if c \<in> set cs then [t] else [])"
| "step (Plus cs) s = map (\<lambda>i. drop i s) [1 ..< Suc (length (takeWhile (\<lambda>c. c \<in> set cs) s))]"
| "step (Seq a b) s = concat (map (step b) (step a s))"
| "step (Alt a b) s = step a s @ step b s"
| "step (Look a) s = (if step a s = [] then [] else [s])"
| "step End s = (if s = [] then [s] else [])"

definition test :: "rx \<Rightarrow> string \<Rightarrow> bool" where
  "test r s = (step r s \<noteq> [])"

definition Opt :: "rx \<Rightarrow> rx" where
  "Opt r = Alt r Eps"

fun Str :: "string \<Rightarrow> rx" where
  "Str [] = Eps"
| "Str (c # cs) = Seq (Cls [c]) (Str cs)"

fun Rep :: "nat \<Rightarrow> rx \<Rightarrow> rx" where
  "Rep 0 r = Eps"
| "Rep (Suc n) r = Seq r (Rep n r)"

fun RepUpTo :: "nat \<Rightarrow> rx \<Rightarrow> rx" where
  "RepUpTo 0 r = Eps"
| "RepUpTo (Suc n) r = Opt (Seq r (RepUpTo n r))"

definition sep :: rx where
  "sep = Cls ''- ''"

definition isbn_prefix :: rx where
  "isbn_prefix = Opt (Seq (Str ''ISBN'') (Seq (Opt (Seq (Str ''-1'') (Cls ''03'')))
                   (Seq (Opt (Cls '':'')) (Cls '' ''))))"

definition isbn_lookahead :: rx where
  "isbn_lookahead = Look
     (Alt (Seq (Rep 10 (Cls ''0123456789X'')) End)
     (Alt (Seq (Look (Rep 3 (Seq (Plus digits) sep))) (Seq (Rep 13 (Cls ''- 0123456789X'')) End))
     (Alt (Seq (Str ''97'') (Seq (Cls ''89'') (Seq (Rep 10 (Cls digits)) End)))
          (Seq (Look (Rep 4 (Seq (Plus digits) sep))) (Seq (Rep 17 (Cls ''- 0123456789'')) End)))))"

definition isbn_body :: rx where
  "isbn_body =
     Seq (Opt (Seq (Str ''97'') (Seq (Cls ''89'') (Opt sep))))
    (Seq (Seq (Cls digits) (RepUpTo 4 (Cls digits)))
    (Seq (Opt sep) (Seq (Plus digits) (Seq (Opt sep) (Seq (Plus digits)
    (Seq (Opt sep) (Seq (Cls ''0123456789X'') End)))))))"

definition isbn_validator :: "string \<Rightarrow> bool" where
  "isbn_validator v = test (Seq isbn_prefix (Seq isbn_lookahead isbn_body)) v"


section \<open>Documents and the document store\<close>

text \<open>The two Mongoose models. \<open>b_id\<close> and \<open>r_id\<close> are the \<open>_id\<close> fields; dates are
  milliseconds. A required string that a request leaves out is the empty string.\<close>

record Book =
  b_id :: objectid
  title :: string
  author :: string
  isbn :: string
  publicationYear :: int
  genre :: string
  description :: "string option"
  publisher :: "string option"
  pages :: "int option"
  language :: string
  averageRating :: rat
  numberOfReviews :: int
  createdAt :: nat
  updatedAt :: nat

record Review =
  r_id :: objectid
  book :: objectid
  reviewerName :: string
  rating :: int
  reviewText :: string
  reviewDate :: nat
  helpful :: int
  verified :: bool
  r_createdAt :: nat
  r_updatedAt :: nat

text \<open>Request bodies (\<open>req.body\<close>), restricted to the paths of the schemas: Mongoose drops
  every other key. Optional paths are \<open>None\<close> when the request leaves them out.\<close>

record BookBody =
  bb_title :: string
  bb_author :: string
  bb_isbn :: string
  bb_publicationYear :: int
  bb_genre :: string
  bb_description :: "string option"
  bb_publisher :: "string option"
  bb_pages :: "int option"
  bb_language :: "string option"
  bb_averageRating :: "rat option"
  bb_numberOfReviews :: "int option"

record ReviewBody =
  rb_book :: string
  rb_reviewerName :: string
  rb_rating :: int
  rb_reviewText :: string
  rb_reviewDate :: "nat option"
  rb_helpful :: "int option"
  rb_verified :: "bool option"

text \<open>Update documents of \<open>findByIdAndUpdate\<close>, and the write commands that the routes
  send to the store. The state of the store is its two collections, in their stored
  order, with the clock that \<open>Date.now\<close> reads (\<open>now\<close>) and the write commands it has
  been sent, oldest first (\<open>writes\<close>). A command acts on the first document with the id;
  ids are unique in every reachable state.\<close>

datatype book_update = SetAggregate rat int | SetBook BookBody

datatype review_update = SetReview ReviewBody | IncHelpful int

datatype write_cmd =
    Book_save objectid
  | Book_findByIdAndUpdate objectid book_update
  | Book_findByIdAndDelete objectid
  | Review_save objectid
  | Review_findByIdAndUpdate objectid review_update
  | Review_findByIdAndDelete objectid
  | Review_deleteMany objectid

record db =
  books :: "Book list"
  reviews :: "Review list"
  now :: nat
  writes :: "write_cmd list"

text \<open>Errors that a store call or \<open>new RegExp\<close> throws into a route's \<open>catch\<close>.\<close>

datatype thrown = ValidationError | DuplicateKey | CastError | BadValue | SyntaxError

fun update_first :: "('a \<Rightarrow> bool) \<Rightarrow> ('a \<Rightarrow> 'a) \<Rightarrow> 'a list \<Rightarrow> 'a list" where
  "update_first P f [] = []"
| "update_first P f (x # xs) = (if P x then f x # xs else x # update_first P f xs)"

fun delete_first :: "('a \<Rightarrow> bool) \<Rightarrow> 'a list \<Rightarrow> 'a list" where
  "delete_first P [] = []"
| "delete_first P (x # xs) = (if P x then xs else x # delete_first P xs)"

definition sent :: "write_cmd \<Rightarrow> db \<Rightarrow> db" where
  "sent w s = s\<lparr>writes := writes s @ [w]\<rparr>"

definition Book_findById :: "objectid \<Rightarrow> db \<Rightarrow> Book option" where
  "Book_findById i s = find (\<lambda>b. b_id b = i) (books s)"

definition Review_findById :: "objectid \<Rightarrow> db \<Rightarrow> Review option" where
  "Review_findById i s = find (\<lambda>r. r_id r = i) (reviews s)"

text \<open>\<open>Review.find(query)\<close> with the two keys the routes put into a query.\<close>

record ReviewQuery =
  q_book :: "objectid option"
  q_rating :: "int option"

definition review_matches :: "ReviewQuery \<Rightarrow> Review \<Rightarrow> bool" where
  "review_matches q r =
     ((case q_book q of None \<Rightarrow> True | Some i \<Rightarrow> book r = i) \<and>
      (case q_rating q of None \<Rightarrow> True | Some n \<Rightarrow> rating r = n))"

definition Review_find :: "ReviewQuery \<Rightarrow> db \<Rightarrow> Review list" where
  "Review_find q s = filter (review_matches q) (reviews s)"

definition apply_book_update :: "nat \<Rightarrow> book_update \<Rightarrow> Book \<Rightarrow> Book" where
  "apply_book_update t u b =
     (case u of
        SetAggregate a n \<Rightarrow> b\<lparr>averageRating := a, numberOfReviews := n, updatedAt := t\<rparr>
      | SetBook body \<Rightarrow>
          b\<lparr>title := trim (bb_title body), author := trim (bb_author body),
            isbn := trim (bb_isbn body), publicationYear := bb_publicationYear body,
            genre := trim (bb_genre body),
            description := (case bb_description body of None \<Rightarrow> description b | Some d \<Rightarrow> Some (trim d)),
            publisher := (case bb_publisher body of None \<Rightarrow> publisher b | Some p \<Rightarrow> Some (trim p)),
            pages := (case bb_pages body of None \<Rightarrow> pages b | Some n \<Rightarrow> Some n),
            language := (case bb_language body of None \<Rightarrow> language b | Some l \<Rightarrow> trim l),
            averageRating := (case bb_averageRating body of None \<Rightarrow> averageRating b | Some a \<Rightarrow> a),
            numberOfReviews := (case bb_numberOfReviews body of None \<Rightarrow> numberOfReviews b | Some n \<Rightarrow> n),
            updatedAt := t\<rparr>)"

text \<open>\<open>Book.findByIdAndUpdate(id, update, {new: true})\<close> where no unique index is
  violated: the updated document, or \<open>None\<close> (\<open>null\<close>) when the id is absent.\<close>

definition Book_update :: "objectid \<Rightarrow> book_update \<Rightarrow> db \<Rightarrow> Book option \<times> db" where
  "Book_update i u s =
     (let s' = sent (Book_findByIdAndUpdate i u) s;
          s'' = s'\<lparr>books := update_first (\<lambda>b. b_id b = i) (apply_book_update (now s) u) (books s)\<rparr>
      in (Book_findById i s'', s''))"

section \<open>The rating aggregate\<close>

text \<open>\<open>updateBookRating\<close> of the review routes. The division is not reached with no
  review; with reviews, the average is the double quotient, printed by \<open>toFixed(2)\<close> and
  cast back to a Number by Mongoose.\<close>

definition totalRating :: "Review list \<Rightarrow> int" where
  "totalRating rs = foldl (\<lambda>sum review. sum + rating review) 0 rs"

definition updateBookRating :: "objectid \<Rightarrow> db \<Rightarrow> db" where
  "updateBookRating bookId s =
     (let rs = Review_find \<lparr>q_book = Some bookId, q_rating = None\<rparr> s
      in if length rs = 0 then snd (Book_update bookId (SetAggregate 0 0) s)
         else let averageRating = fl (of_int (totalRating rs) / of_int (int (length rs)))
              in snd (Book_update bookId
                        (SetAggregate (Number_of_hundredths (toFixed2 averageRating))
                                      (int (length rs))) s))"


section \<open>Sorting and replies\<close>

text \<open>Values of document paths, compared as MongoDB compares BSON values: first by
  type (null or missing, numbers, strings, ObjectIds, booleans, dates), then by value.
  Documents with equal keys stay in their stored order.\<close>

datatype bson = BNull | BNum rat | BStr string | BOid objectid | BBool bool | BDate nat

fun bson_rank :: "bson \<Rightarrow> nat" where
  "bson_rank BNull = 0"
| "bson_rank (BNum _) = 1"
| "bson_rank (BStr _) = 2"
| "bson_rank (BOid _) = 3"
| "bson_rank (BBool _) = 4"
| "bson_rank (BDate _) = 5"

fun bson_le :: "bson \<Rightarrow> bson \<Rightarrow> bool" where
  "bson_le (BNum x) (BNum y) = (x \<le> y)"
| "bson_le (BStr x) (BStr y) = (x \<le> y)"
| "bson_le (BOid x) (BOid y) = (x \<le> y)"
| "bson_le (BBool x) (BBool y) = (x \<le> y)"
| "bson_le (BDate x) (BDate y) = (x \<le> y)"
| "bson_le a b = (bson_rank a \<le> bson_rank b)"

fun insert_by :: "('a \<Rightarrow> 'a \<Rightarrow> bool) \<Rightarrow> 'a \<Rightarrow> 'a list \<Rightarrow> 'a list" where
  "insert_by le x [] = [x]"
| "insert_by le x (y # ys) = (if le x y then x # y # ys else y # insert_by le x ys)"

definition sort_docs :: "('a \<Rightarrow> bson) \<Rightarrow> int \<Rightarrow> 'a list \<Rightarrow> 'a list" where
  "sort_docs key sortOrder xs =
     foldr (insert_by (\<lambda>a b. if sortOrder = 1 then bson_le (key a) (key b)
                              else bson_le (key b) (key a))) xs []"

definition opt_str :: "string option \<Rightarrow> bson" where
  "opt_str v = (case v of None \<Rightarrow> BNull | Some x \<Rightarrow> BStr x)"

definition book_path :: "string \<Rightarrow> Book \<Rightarrow> bson" where
  "book_path p b =
     (if p = ''_id'' then BOid (b_id b) else if p = ''title'' then BStr (title b)
      else if p = ''author'' then BStr (author b) else if p = ''isbn'' then BStr (isbn b)
      else if p = ''publicationYear'' then BNum (of_int (publicationYear b))
      else if p = ''genre'' then BStr (genre b)
      else if p = ''description'' then opt_str (description b)
      else if p = ''publisher'' then opt_str (publisher b)
      else if p = ''pages'' then (case pages b of None \<Rightarrow> BNull | Some n \<Rightarrow> BNum (of_int n))
      else if p = ''language'' then BStr (language b)
      else if p = ''averageRating'' then BNum (averageRating b)
      else if p = ''numberOfReviews'' then BNum (of_int (numberOfReviews b))
      else if p = ''createdAt'' then BDate (createdAt b)
      else if p = ''updatedAt'' then BDate (updatedAt b) else BNull)"

definition review_path :: "string \<Rightarrow> Review \<Rightarrow> bson" where
  "review_path p r =
     (if p = ''_id'' then BOid (r_id r) else if p = ''book'' then BOid (book r)
      else if p = ''reviewerName'' then BStr (reviewerName r)
      else if p = ''rating'' then BNum (of_int (rating r))
      else if p = ''reviewText'' then BStr (reviewText r)
      else if p = ''reviewDate'' then BDate (reviewDate r)
      else if p = ''helpful'' then BNum (of_int (helpful r))
      else if p = ''verified'' then BBool (verified r)
      else if p = ''createdAt'' then BDate (r_createdAt r)
      else if p = ''updatedAt'' then BDate (r_updatedAt r) else BNull)"

text \<open>\<open>populate('book', 'title author')\<close>: the review with the \<open>_id\<close>, title and author
  of its book, or \<open>null\<close> for the book when no book has that id.\<close>

type_synonym populated = "Review \<times> (objectid \<times> string \<times> string) option"

definition populate :: "db \<Rightarrow> Review \<Rightarrow> populated" where
  "populate s r = (r, map_option (\<lambda>b. (b_id b, title b, author b)) (Book_findById (book r) s))"

record pagination =
  p_page :: "int option"
  p_limit :: "int option"
  p_total :: int
  p_pages :: "int option"

text \<open>Response bodies. \<open>Error\<close> carries a message written in the routes,
  \<open>ErrorMessage\<close> the message of an error the store raised; \<open>AReview None\<close> is \<open>null\<close>.\<close>

datatype payload =
    Errors "string list"
  | Error string
  | ErrorMessage thrown
  | Message string
  | ABook Book
  | BookPage "Book list" pagination
  | AReview "populated option"
  | Reviews "populated list"
  | PlainReviews "Review list"

type_synonym reply = "nat \<times> payload"

section \<open>Review routes\<close>

text \<open>The \<open>express-validator\<close> chain \<open>validateReview\<close>: every validator runs and each
  failure adds its message; \<open>trim\<close> rewrites the body before \<open>isLength\<close> reads it.\<close>

definition validateReview :: "ReviewBody \<Rightarrow> string list" where
  "validateReview body =
     (if isMongoId (rb_book body) then [] else [''Valid book ID is required'']) @
     (if rb_reviewerName body = [] then [''Reviewer name is required''] else []) @
     (if 2 \<le> length (trim (rb_reviewerName body)) \<and> length (trim (rb_reviewerName body)) \<le> 100
      then [] else [''Invalid value'']) @
     (if 1 \<le> rb_rating body \<and> rb_rating body \<le> 5 then []
      else [''Rating must be between 1 and 5'']) @
     (if rb_reviewText body = [] then [''Review text is required''] else []) @
     (if 10 \<le> length (trim (rb_reviewText body)) \<and> length (trim (rb_reviewText body)) \<le> 2000
      then [] else [''Invalid value''])"

definition sanitizeReview :: "ReviewBody \<Rightarrow> ReviewBody" where
  "sanitizeReview body =
     body\<lparr>rb_reviewerName := trim (rb_reviewerName body), rb_reviewText := trim (rb_reviewText body)\<rparr>"

definition validateReviewId :: "string \<Rightarrow> string list" where
  "validateReviewId i = (if isMongoId i then [] else [''Invalid review ID''])"

text \<open>The validators of the Review schema, run by \<open>save\<close> on the document and, with
  \<open>runValidators\<close>, by \<open>findByIdAndUpdate\<close> on the paths of the update.\<close>

definition Review_validate :: "Review \<Rightarrow> bool" where
  "Review_validate r =
     (2 \<le> length (reviewerName r) \<and> length (reviewerName r) \<le> 100 \<and>
      1 \<le> rating r \<and> rating r \<le> 5 \<and>
      10 \<le> length (reviewText r) \<and> length (reviewText r) \<le> 2000 \<and>
      0 \<le> helpful r)"

definition new_Review :: "objectid \<Rightarrow> objectid \<Rightarrow> ReviewBody \<Rightarrow> nat \<Rightarrow> Review" where
  "new_Review newId bookId body t =
     \<lparr>r_id = newId, book = bookId, reviewerName = trim (rb_reviewerName body),
      rating = rb_rating body, reviewText = trim (rb_reviewText body),
      reviewDate = (case rb_reviewDate body of None \<Rightarrow> t | Some d \<Rightarrow> d),
      helpful = (case rb_helpful body of None \<Rightarrow> 0 | Some h \<Rightarrow> h),
      verified = (case rb_verified body of None \<Rightarrow> False | Some v \<Rightarrow> v),
      r_createdAt = t, r_updatedAt = t\<rparr>"

text \<open>\<open>review.save()\<close>: validation, then the insert, which the store refuses when the
  \<open>_id\<close> is taken.\<close>

definition Review_insert :: "Review \<Rightarrow> db \<Rightarrow> thrown option \<times> db" where
  "Review_insert doc s =
     (if \<not> Review_validate doc then (Some ValidationError, s)
      else let s' = sent (Review_save (r_id doc)) s
           in if r_id doc \<in> set (map r_id (reviews s)) then (Some DuplicateKey, s')
              else (None, s'\<lparr>reviews := reviews s @ [doc]\<rparr>))"

definition apply_review_update :: "nat \<Rightarrow> review_update \<Rightarrow> Review \<Rightarrow> Review" where
  "apply_review_update t u r =
     (case u of
        IncHelpful k \<Rightarrow> r\<lparr>helpful := helpful r + k, r_updatedAt := t\<rparr>
      | SetReview body \<Rightarrow>
          r\<lparr>book := (case castObjectId (rb_book body) of None \<Rightarrow> book r | Some i \<Rightarrow> i),
            reviewerName := trim (rb_reviewerName body), rating := rb_rating body,
            reviewText := trim (rb_reviewText body),
            reviewDate := (case rb_reviewDate body of None \<Rightarrow> reviewDate r | Some d \<Rightarrow> d),
            helpful := (case rb_helpful body of None \<Rightarrow> helpful r | Some h \<Rightarrow> h),
            verified := (case rb_verified body of None \<Rightarrow> verified r | Some v \<Rightarrow> v),
            r_updatedAt := t\<rparr>)"

definition Review_update :: "objectid \<Rightarrow> review_update \<Rightarrow> db \<Rightarrow> Review option \<times> db" where
  "Review_update i u s =
     (let s' = sent (Review_findByIdAndUpdate i u) s;
          s'' = s'\<lparr>reviews := update_first (\<lambda>r. r_id r = i) (apply_review_update (now s) u) (reviews s)\<rparr>
      in (Review_findById i s'', s''))"

definition review_update_valid :: "ReviewBody \<Rightarrow> bool" where
  "review_update_valid body =
     (2 \<le> length (trim (rb_reviewerName body)) \<and> length (trim (rb_reviewerName body)) \<le> 100 \<and>
      1 \<le> rb_rating body \<and> rb_rating body \<le> 5 \<and>
      10 \<le> length (trim (rb_reviewText body)) \<and> length (trim (rb_reviewText body)) \<le> 2000 \<and>
      (case rb_helpful body of None \<Rightarrow> True | Some h \<Rightarrow> 0 \<le> h))"

definition Review_delete :: "objectid \<Rightarrow> db \<Rightarrow> db" where
  "Review_delete i s =
     (sent (Review_findByIdAndDelete i) s)\<lparr>reviews := delete_first (\<lambda>r. r_id r = i) (reviews s)\<rparr>"

text \<open>The query string of \<open>GET /api/reviews\<close>; a parameter that is absent is \<open>None\<close>.\<close>

record ReviewsQuery =
  rq_book :: "string option"
  rq_rating :: "string option"
  rq_sort :: "string option"
  rq_order :: "string option"

text \<open>The routes of \<open>/api/reviews\<close>, each from the request to the reply (status and
  body) and the new state of the store: \<open>reviews_get\<close> is \<open>GET /\<close>, \<open>reviews_get_id\<close> is
  \<open>GET /:id\<close>, \<open>reviews_post\<close> is \<open>POST /\<close>, \<open>reviews_put\<close> is \<open>PUT /:id\<close>,
  \<open>reviews_delete\<close> is \<open>DELETE /:id\<close> and \<open>reviews_patch_helpful\<close> is
  \<open>PATCH /:id/helpful\<close>. An id that passed \<open>isMongoId\<close> is cast by \<open>ObjectId_of\<close>.

  A query parameter that is absent or empty is falsy and adds no key to the query;
  otherwise Mongoose casts its value when the query runs, and the outer \<open>None\<close> is its
  \<open>CastError\<close>.\<close>

definition given :: "string option \<Rightarrow> string option" where
  "given v = (case v of None \<Rightarrow> None | Some x \<Rightarrow> if x = [] then None else Some x)"

definition cast_param :: "(string \<Rightarrow> 'a option) \<Rightarrow> string option \<Rightarrow> 'a option option" where
  "cast_param f v = (case given v of None \<Rightarrow> Some None | Some x \<Rightarrow> map_option Some (f x))"

definition reviews_get :: "ReviewsQuery \<Rightarrow> db \<Rightarrow> reply \<times> db" where
  "reviews_get q s =
     (let sort = (case rq_sort q of None \<Rightarrow> ''reviewDate'' | Some x \<Rightarrow> x);
          order = (case rq_order q of None \<Rightarrow> ''desc'' | Some x \<Rightarrow> x);
          sortOrder = (if order = ''asc'' then 1 else - 1)
      in case cast_param castObjectId (rq_book q) of
           None \<Rightarrow> ((500, ErrorMessage CastError), s)
         | Some qb \<Rightarrow>
            (case cast_param parseInt (rq_rating q) of
               None \<Rightarrow> ((500, ErrorMessage CastError), s)
             | Some qr \<Rightarrow>
                 let found = sort_docs (review_path sort) sortOrder
                               (Review_find \<lparr>q_book = qb, q_rating = qr\<rparr> s)
                 in ((200, Reviews (map (populate s) found)), s)))"

definition reviews_get_id :: "string \<Rightarrow> db \<Rightarrow> reply \<times> db" where
  "reviews_get_id i s =
     (if validateReviewId i \<noteq> [] then ((400, Errors (validateReviewId i)), s)
      else case Review_findById (ObjectId_of i) s of
             None \<Rightarrow> ((404, Error ''Review not found''), s)
           | Some review \<Rightarrow> ((200, AReview (Some (populate s review))), s))"

definition reviews_post :: "objectid \<Rightarrow> ReviewBody \<Rightarrow> db \<Rightarrow> reply \<times> db" where
  "reviews_post newId body0 s =
     (let errors = validateReview body0; body = sanitizeReview body0
      in if errors \<noteq> [] then ((400, Errors errors), s)
         else case castObjectId (rb_book body) of
                None \<Rightarrow> ((400, ErrorMessage CastError), s)
              | Some bookId \<Rightarrow>
                 (case Book_findById bookId s of
                    None \<Rightarrow> ((404, Error ''Book not found''), s)
                  | Some b \<Rightarrow>
                     (case Review_insert (new_Review newId bookId body (now s)) s of
                        (Some e, s1) \<Rightarrow> ((400, ErrorMessage e), s1)
                      | (None, s1) \<Rightarrow>
                          let s2 = updateBookRating bookId s1
                          in ((201, AReview (map_option (populate s2) (Review_findById newId s2))), s2))))"

definition reviews_put :: "string \<Rightarrow> ReviewBody \<Rightarrow> db \<Rightarrow> reply \<times> db" where
  "reviews_put i body0 s =
     (let errors = validateReviewId i @ validateReview body0; body = sanitizeReview body0
      in if errors \<noteq> [] then ((400, Errors errors), s)
         else case castObjectId (rb_book body) of
                None \<Rightarrow> ((400, ErrorMessage CastError), s)
              | Some bookId \<Rightarrow>
                 (case Book_findById bookId s of
                    None \<Rightarrow> ((404, Error ''Book not found''), s)
                  | Some b \<Rightarrow>
                     (case Review_findById (ObjectId_of i) s of
                        None \<Rightarrow> ((404, Error ''Review not found''), s)
                      | Some oldReview \<Rightarrow>
                          if \<not> review_update_valid body then ((400, ErrorMessage ValidationError), s)
                          else let (review, s1) = Review_update (ObjectId_of i) (SetReview body) s;
                                   shown = map_option (populate s1) review;
                                   s2 = updateBookRating (book oldReview) s1;
                                   s3 = (if toString (book oldReview) \<noteq> rb_book body
                                         then updateBookRating bookId s2 else s2)
                               in ((200, AReview shown), s3))))"

definition reviews_delete :: "string \<Rightarrow> db \<Rightarrow> reply \<times> db" where
  "reviews_delete i s =
     (if validateReviewId i \<noteq> [] then ((400, Errors (validateReviewId i)), s)
      else case Review_findById (ObjectId_of i) s of
             None \<Rightarrow> ((404, Error ''Review not found''), s)
           | Some review \<Rightarrow>
               let bookId = book review;
                   s1 = Review_delete (ObjectId_of i) s;
                   s2 = updateBookRating bookId s1
               in ((200, Message ''Review deleted successfully''), s2))"

definition reviews_patch_helpful :: "string \<Rightarrow> db \<Rightarrow> reply \<times> db" where
  "reviews_patch_helpful i s =
     (if validateReviewId i \<noteq> [] then ((400, Errors (validateReviewId i)), s)
      else case Review_update (ObjectId_of i) (IncHelpful 1) s of
             (None, s1) \<Rightarrow> ((404, Error ''Review not found''), s1)
           | (Some review, s1) \<Rightarrow> ((200, AReview (Some (populate s1 review))), s1))"

section \<open>Book routes\<close>

definition genres :: "string list" where
  "genres = [''Fiction'', ''Non-Fiction'', ''Science Fiction'', ''Fantasy'', ''Mystery'',
     ''Thriller'', ''Romance'', ''Horror'', ''Biography'', ''History'', ''Science'',
     ''Self-Help'', ''Other'']"

text \<open>\<open>validateBook\<close>; \<open>maxYear\<close> is \<open>new Date().getFullYear()\<close> when the module was
  loaded.\<close>

definition validateBook :: "int \<Rightarrow> BookBody \<Rightarrow> string list" where
  "validateBook maxYear body =
     (if bb_title body = [] then [''Title is required''] else []) @
     (if 1 \<le> length (trim (bb_title body)) \<and> length (trim (bb_title body)) \<le> 200
      then [] else [''Invalid value'']) @
     (if bb_author body = [] then [''Author is required''] else []) @
     (if 1 \<le> length (trim (bb_author body)) \<and> length (trim (bb_author body)) \<le> 100
      then [] else [''Invalid value'']) @
     (if bb_isbn body = [] then [''ISBN is required''] else []) @
     (if 1000 \<le> bb_publicationYear body \<and> bb_publicationYear body \<le> maxYear then []
      else [''Valid publication year is required'']) @
     (if bb_genre body = [] then [''Genre is required''] else []) @
     (if bb_genre body \<in> set genres then [] else [''Invalid value''])"

definition sanitizeBook :: "BookBody \<Rightarrow> BookBody" where
  "sanitizeBook body =
     body\<lparr>bb_title := trim (bb_title body), bb_author := trim (bb_author body),
          bb_isbn := trim (bb_isbn body)\<rparr>"

definition validateBookId :: "string \<Rightarrow> string list" where
  "validateBookId i = (if isMongoId i then [] else [''Invalid book ID''])"

definition opt_ok :: "('a \<Rightarrow> bool) \<Rightarrow> 'a option \<Rightarrow> bool" where
  "opt_ok P v = (case v of None \<Rightarrow> True | Some x \<Rightarrow> P x)"

text \<open>The validators of the Book schema, on a document.\<close>

definition Book_validate :: "int \<Rightarrow> Book \<Rightarrow> bool" where
  "Book_validate maxYear b =
     (1 \<le> length (title b) \<and> length (title b) \<le> 200 \<and>
      1 \<le> length (author b) \<and> length (author b) \<le> 100 \<and>
      isbn b \<noteq> [] \<and> isbn_validator (isbn b) \<and>
      1000 \<le> publicationYear b \<and> publicationYear b \<le> maxYear \<and>
      genre b \<in> set genres \<and>
      opt_ok (\<lambda>d. length d \<le> 1000) (description b) \<and>
      opt_ok (\<lambda>p. length p \<le> 100) (publisher b) \<and>
      opt_ok (\<lambda>n. 1 \<le> n) (pages b) \<and>
      0 \<le> averageRating b \<and> averageRating b \<le> 5 \<and> 0 \<le> numberOfReviews b)"

definition new_Book :: "objectid \<Rightarrow> BookBody \<Rightarrow> nat \<Rightarrow> Book" where
  "new_Book newId body t =
     \<lparr>b_id = newId, title = trim (bb_title body), author = trim (bb_author body),
      isbn = trim (bb_isbn body), publicationYear = bb_publicationYear body,
      genre = trim (bb_genre body), description = map_option trim (bb_description body),
      publisher = map_option trim (bb_publisher body), pages = bb_pages body,
      language = (case bb_language body of None \<Rightarrow> ''English'' | Some l \<Rightarrow> trim l),
      averageRating = (case bb_averageRating body of None \<Rightarrow> 0 | Some a \<Rightarrow> a),
      numberOfReviews = (case bb_numberOfReviews body of None \<Rightarrow> 0 | Some n \<Rightarrow> n),
      createdAt = t, updatedAt = t\<rparr>"

text \<open>\<open>book.save()\<close>: validation, then the insert, which the store refuses with error
  code 11000 when the \<open>_id\<close> or, by the unique index, the \<open>isbn\<close> is taken.\<close>

definition Book_insert :: "int \<Rightarrow> Book \<Rightarrow> db \<Rightarrow> thrown option \<times> db" where
  "Book_insert maxYear doc s =
     (if \<not> Book_validate maxYear doc then (Some ValidationError, s)
      else let s' = sent (Book_save (b_id doc)) s
           in if b_id doc \<in> set (map b_id (books s)) \<or> isbn doc \<in> set (map isbn (books s))
              then (Some DuplicateKey, s')
              else (None, s'\<lparr>books := books s @ [doc]\<rparr>))"

definition book_update_valid :: "int \<Rightarrow> BookBody \<Rightarrow> bool" where
  "book_update_valid maxYear body =
     (1 \<le> length (trim (bb_title body)) \<and> length (trim (bb_title body)) \<le> 200 \<and>
      1 \<le> length (trim (bb_author body)) \<and> length (trim (bb_author body)) \<le> 100 \<and>
      trim (bb_isbn body) \<noteq> [] \<and> isbn_validator (trim (bb_isbn body)) \<and>
      1000 \<le> bb_publicationYear body \<and> bb_publicationYear body \<le> maxYear \<and>
      trim (bb_genre body) \<in> set genres \<and>
      opt_ok (\<lambda>d. length (trim d) \<le> 1000) (bb_description body) \<and>
      opt_ok (\<lambda>p. length (trim p) \<le> 100) (bb_publisher body) \<and>
      opt_ok (\<lambda>n. 1 \<le> n) (bb_pages body) \<and>
      opt_ok (\<lambda>a. 0 \<le> a \<and> a \<le> 5) (bb_averageRating body) \<and>
      opt_ok (\<lambda>n. 0 \<le> n) (bb_numberOfReviews body))"

definition Book_delete :: "objectid \<Rightarrow> db \<Rightarrow> Book option \<times> db" where
  "Book_delete i s =
     (Book_findById i s,
      (sent (Book_findByIdAndDelete i) s)\<lparr>books := delete_first (\<lambda>b. b_id b = i) (books s)\<rparr>)"

definition Review_deleteMany_book :: "objectid \<Rightarrow> db \<Rightarrow> db" where
  "Review_deleteMany_book i s =
     (sent (Review_deleteMany i) s)\<lparr>reviews := filter (\<lambda>r. book r \<noteq> i) (reviews s)\<rparr>"

text \<open>The routes of \<open>/api/books\<close>: \<open>books_get\<close> is \<open>GET /\<close>, \<open>books_get_id\<close> is
  \<open>GET /:id\<close>, \<open>books_post\<close> is \<open>POST /\<close>, \<open>books_put\<close> is \<open>PUT /:id\<close>, \<open>books_delete\<close> is
  \<open>DELETE /:id\<close> and \<open>books_get_reviews\<close> is \<open>GET /:id/reviews\<close>.

  The query of \<open>GET /api/books\<close>. \<open>new RegExp(pattern, 'i')\<close> is a parameter of the
  route: the predicate that the pattern denotes, or \<open>None\<close> when the pattern is
  malformed and the constructor throws.\<close>

record BooksQuery =
  bq_genre :: "string option"
  bq_author :: "string option"
  bq_search :: "string option"
  bq_page :: "string option"
  bq_limit :: "string option"
  bq_sortBy :: "string option"
  bq_order :: "string option"

record BookFilter =
  f_genre :: "string option"
  f_author :: "(string \<Rightarrow> bool) option"
  f_search :: "(string \<Rightarrow> bool) option"

definition book_matches :: "BookFilter \<Rightarrow> Book \<Rightarrow> bool" where
  "book_matches f b =
     (opt_ok (\<lambda>g. genre b = g) (f_genre f) \<and>
      opt_ok (\<lambda>m. m (author b)) (f_author f) \<and>
      opt_ok (\<lambda>m. m (title b) \<or> m (author b) \<or>
                   (case description b of None \<Rightarrow> False | Some d \<Rightarrow> m d)) (f_search f))"

text \<open>\<open>find(query).sort(..).limit(l).skip(k)\<close>: the store refuses a negative skip; a
  limit of 0 is no limit and a negative limit is its absolute value.\<close>

definition limit_docs :: "int \<Rightarrow> 'a list \<Rightarrow> 'a list" where
  "limit_docs l xs = (if l = 0 then xs else take (nat \<bar>l\<bar>) xs)"

definition Book_find_page :: "BookFilter \<Rightarrow> string \<Rightarrow> int \<Rightarrow> int \<Rightarrow> int \<Rightarrow> db \<Rightarrow> thrown + Book list" where
  "Book_find_page f sortBy sortOrder l k s =
     (if k < 0 then Inl BadValue
      else Inr (limit_docs l (drop (nat k)
                  (sort_docs (book_path sortBy) sortOrder (filter (book_matches f) (books s))))))"

definition Book_countDocuments :: "BookFilter \<Rightarrow> db \<Rightarrow> int" where
  "Book_countDocuments f s = int (length (filter (book_matches f) (books s)))"

definition books_get :: "(string \<Rightarrow> (string \<Rightarrow> bool) option) \<Rightarrow> BooksQuery \<Rightarrow> db \<Rightarrow> reply \<times> db" where
  "books_get RegExp_i q s =
     (let page = (case bq_page q of None \<Rightarrow> Some 1 | Some x \<Rightarrow> parseInt x);
          limit = (case bq_limit q of None \<Rightarrow> Some 10 | Some x \<Rightarrow> parseInt x);
          sortBy = (case bq_sortBy q of None \<Rightarrow> ''createdAt'' | Some x \<Rightarrow> x);
          order = (case bq_order q of None \<Rightarrow> ''desc'' | Some x \<Rightarrow> x)
      in case cast_param RegExp_i (bq_author q) of
           None \<Rightarrow> ((500, ErrorMessage SyntaxError), s)
         | Some authorTest \<Rightarrow>
            (case cast_param RegExp_i (bq_search q) of
               None \<Rightarrow> ((500, ErrorMessage SyntaxError), s)
             | Some searchTest \<Rightarrow>
                 let query = \<lparr>f_genre = given (bq_genre q), f_author = authorTest, f_search = searchTest\<rparr>;
                     sortOrder = (if order = ''asc'' then 1 else - 1)
                 in (case (page, limit) of
                       (Some pageNo, Some limitNo) \<Rightarrow>
                         (case Book_find_page query sortBy sortOrder limitNo ((pageNo - 1) * limitNo) s of
                            Inl e \<Rightarrow> ((500, ErrorMessage e), s)
                          | Inr found \<Rightarrow>
                              let total = Book_countDocuments query s
                              in ((200, BookPage found
                                    \<lparr>p_page = page, p_limit = limit, p_total = total,
                                     p_pages = ceil_div total limitNo\<rparr>), s))
                     | _ \<Rightarrow> ((500, ErrorMessage BadValue), s))))"

definition books_get_id :: "string \<Rightarrow> db \<Rightarrow> reply \<times> db" where
  "books_get_id i s =
     (if validateBookId i \<noteq> [] then ((400, Errors (validateBookId i)), s)
      else case Book_findById (ObjectId_of i) s of
             None \<Rightarrow> ((404, Error ''Book not found''), s)
           | Some b \<Rightarrow> ((200, ABook b), s))"

definition books_post :: "int \<Rightarrow> objectid \<Rightarrow> BookBody \<Rightarrow> db \<Rightarrow> reply \<times> db" where
  "books_post maxYear newId body0 s =
     (let errors = validateBook maxYear body0; body = sanitizeBook body0
      in if errors \<noteq> [] then ((400, Errors errors), s)
         else case Book_insert maxYear (new_Book newId body (now s)) s of
                (None, s1) \<Rightarrow> ((201, ABook (new_Book newId body (now s))), s1)
              | (Some e, s1) \<Rightarrow>
                  if e = DuplicateKey then ((400, Error ''A book with this ISBN already exists''), s1)
                  else ((400, ErrorMessage e), s1))"

text \<open>\<open>Book.findByIdAndUpdate(id, req.body, {new: true, runValidators: true})\<close>: the
  update validators run before the command is sent; the store refuses the update with
  error code 11000 when another book has the new \<open>isbn\<close>.\<close>

definition Book_replace :: "int \<Rightarrow> objectid \<Rightarrow> BookBody \<Rightarrow> db \<Rightarrow> (thrown + Book option) \<times> db" where
  "Book_replace maxYear i body s =
     (if \<not> book_update_valid maxYear body then (Inl ValidationError, s)
      else if i \<in> set (map b_id (books s)) \<and>
              trim (bb_isbn body) \<in> set (map isbn (filter (\<lambda>b. b_id b \<noteq> i) (books s)))
      then (Inl DuplicateKey, sent (Book_findByIdAndUpdate i (SetBook body)) s)
      else case Book_update i (SetBook body) s of (r, s1) \<Rightarrow> (Inr r, s1))"

definition books_put :: "int \<Rightarrow> string \<Rightarrow> BookBody \<Rightarrow> db \<Rightarrow> reply \<times> db" where
  "books_put maxYear i body0 s =
     (let errors = validateBookId i @ validateBook maxYear body0; body = sanitizeBook body0
      in if errors \<noteq> [] then ((400, Errors errors), s)
         else case Book_replace maxYear (ObjectId_of i) body s of
                (Inr None, s1) \<Rightarrow> ((404, Error ''Book not found''), s1)
              | (Inr (Some b), s1) \<Rightarrow> ((200, ABook b), s1)
              | (Inl e, s1) \<Rightarrow>
                  if e = DuplicateKey then ((400, Error ''A book with this ISBN already exists''), s1)
                  else ((400, ErrorMessage e), s1))"

definition books_delete :: "string \<Rightarrow> db \<Rightarrow> reply \<times> db" where
  "books_delete i s =
     (if validateBookId i \<noteq> [] then ((400, Errors (validateBookId i)), s)
      else case Book_delete (ObjectId_of i) s of
             (None, s1) \<Rightarrow> ((404, Error ''Book not found''), s1)
           | (Some b, s1) \<Rightarrow>
               let s2 = Review_deleteMany_book (ObjectId_of i) s1
               in ((200, Message ''Book and associated reviews deleted successfully''), s2))"

definition books_get_reviews :: "string \<Rightarrow> db \<Rightarrow> reply \<times> db" where
  "books_get_reviews i s =
     (if validateBookId i \<noteq> [] then ((400, Errors (validateBookId i)), s)
      else case Book_findById (ObjectId_of i) s of
             None \<Rightarrow> ((404, Error ''Book not found''), s)
           | Some b \<Rightarrow>
               ((200, PlainReviews (sort_docs (review_path ''reviewDate'') (- 1)
                        (Review_find \<lparr>q_book = Some (ObjectId_of i), q_rating = None\<rparr> s))), s))"

section \<open>The API as a transition system\<close>

text \<open>One request of a client. A \<open>POST\<close> carries the ObjectId that the driver generates
  for the new document; \<open>handle\<close> takes \<open>new RegExp\<close> and the year the module was loaded
  in as parameters.\<close>

datatype request =
    GetBooks BooksQuery
  | GetBook string
  | PostBook objectid BookBody
  | PutBook string BookBody
  | DeleteBook string
  | GetBookReviews string
  | GetReviews ReviewsQuery
  | GetReview string
  | PostReview objectid ReviewBody
  | PutReview string ReviewBody
  | DeleteReview string
  | PatchHelpful string

fun handle :: "(string \<Rightarrow> (string \<Rightarrow> bool) option) \<Rightarrow> int \<Rightarrow> request \<Rightarrow> db \<Rightarrow> reply \<times> db" where
  "handle re my (GetBooks q) s = books_get re q s"
| "handle re my (GetBook i) s = books_get_id i s"
| "handle re my (PostBook n body) s = books_post my n body s"
| "handle re my (PutBook i body) s = books_put my i body s"
| "handle re my (DeleteBook i) s = books_delete i s"
| "handle re my (GetBookReviews i) s = books_get_reviews i s"
| "handle re my (GetReviews q) s = reviews_get q s"
| "handle re my (GetReview i) s = reviews_get_id i s"
| "handle re my (PostReview n body) s = reviews_post n body s"
| "handle re my (PutReview i body) s = reviews_put i body s"
| "handle re my (DeleteReview i) s = reviews_delete i s"
| "handle re my (PatchHelpful i) s = reviews_patch_helpful i s"

text \<open>The states that the API reaches from an empty store, by requests and by the
  passing of time; and those it reaches when no request writes the aggregate fields of a
  book itself.\<close>

definition empty_db :: "nat \<Rightarrow> db" where
  "empty_db t = \<lparr>books = [], reviews = [], now = t, writes = []\<rparr>"

fun sets_aggregate :: "request \<Rightarrow> bool" where
  "sets_aggregate (PostBook n body) = (bb_averageRating body \<noteq> None \<or> bb_numberOfReviews body \<noteq> None)"
| "sets_aggregate (PutBook i body) = (bb_averageRating body \<noteq> None \<or> bb_numberOfReviews body \<noteq> None)"
| "sets_aggregate _ = False"

inductive reachable :: "(string \<Rightarrow> (string \<Rightarrow> bool) option) \<Rightarrow> int \<Rightarrow> db \<Rightarrow> bool"
  for re :: "string \<Rightarrow> (string \<Rightarrow> bool) option" and my :: int where
  start: "reachable re my (empty_db t)"
| request: "reachable re my s \<Longrightarrow> reachable re my (snd (handle re my req s))"
| tick: "reachable re my s \<Longrightarrow> reachable re my (s\<lparr>now := t\<rparr>)"

inductive reachable_derived :: "(string \<Rightarrow> (string \<Rightarrow> bool) option) \<Rightarrow> int \<Rightarrow> db \<Rightarrow> bool"
  for re :: "string \<Rightarrow> (string \<Rightarrow> bool) option" and my :: int where
  d_start: "reachable_derived re my (empty_db t)"
| d_request: "reachable_derived re my s \<Longrightarrow> \<not> sets_aggregate req \<Longrightarrow>
              reachable_derived re my (snd (handle re my req s))"
| d_tick: "reachable_derived re my s \<Longrightarrow> reachable_derived re my (s\<lparr>now := t\<rparr>)"

section \<open>Observations of a store\<close>

text \<open>The aggregate that \<open>updateBookRating\<close> writes for a list of reviews, and the
  invariant that every book carries the aggregate of the reviews that reference it.\<close>

definition aggregate :: "Review list \<Rightarrow> rat \<times> int" where
  "aggregate rs =
     (if rs = [] then (0, 0)
      else (Number_of_hundredths (toFixed2 (fl (of_int (totalRating rs) / of_int (int (length rs))))),
            int (length rs)))"

definition reviews_of :: "objectid \<Rightarrow> db \<Rightarrow> Review list" where
  "reviews_of i s = filter (\<lambda>r. book r = i) (reviews s)"

definition book_ok :: "db \<Rightarrow> Book \<Rightarrow> bool" where
  "book_ok s b = ((averageRating b, numberOfReviews b) = aggregate (reviews_of (b_id b) s))"

definition aggregates_ok :: "db \<Rightarrow> bool" where
  "aggregates_ok s = list_all (book_ok s) (books s)"

definition ok_except :: "objectid set \<Rightarrow> db \<Rightarrow> bool" where
  "ok_except X s = (\<forall>b \<in> set (books s). b_id b \<notin> X \<longrightarrow> book_ok s b)"

text \<open>Book ids are unique, and every review references a book that exists, by an
  ObjectId in canonical form.\<close>

definition store_inv :: "db \<Rightarrow> bool" where
  "store_inv s =
     (distinct (map b_id (books s)) \<and>
      list_all (\<lambda>r. book r \<in> set (map b_id (books s)) \<and> ObjectId_of (book r) = book r) (reviews s))"

text \<open>A rating that the validators accept.\<close>

definition rated :: "Review \<Rightarrow> bool" where
  "rated r = (1 \<le> rating r \<and> rating r \<le> 5)"

text \<open>The aggregate fields of a book, with its id.\<close>

definition agg :: "Book \<Rightarrow> objectid \<times> rat \<times> int" where
  "agg b = (b_id b, averageRating b, numberOfReviews b)"





section \<open>Sample data\<close>

definition B1 :: objectid where "B1 = ''507f1f77bcf86cd799439011''"
definition B2 :: objectid where "B2 = ''507f1f77bcf86cd799439012''"
definition R1 :: objectid where "R1 = ''60c72b2f9b1e8a001c8e4d01''"
definition R2 :: objectid where "R2 = ''60c72b2f9b1e8a001c8e4d02''"

definition book1 :: Book where
  "book1 = \<lparr>b_id = B1, title = ''Dune'', author = ''Frank Herbert'', isbn = ''9780441013593'',
     publicationYear = 1965, genre = ''Science Fiction'', description = None, publisher = None,
     pages = None, language = ''English'', averageRating = 0, numberOfReviews = 0,
     createdAt = 1, updatedAt = 1\<rparr>"

definition book2 :: Book where
  "book2 = \<lparr>b_id = B2, title = ''Emma'', author = ''Jane Austen'', isbn = ''0141439580'',
     publicationYear = 1815, genre = ''Romance'', description = None, publisher = None,
     pages = Some 474, language = ''English'', averageRating = 0, numberOfReviews = 0,
     createdAt = 2, updatedAt = 2\<rparr>"

definition review1 :: Review where
  "review1 = \<lparr>r_id = R1, book = B1, reviewerName = ''Ann'', rating = 4,
     reviewText = ''A long and rewarding read'', reviewDate = 3, helpful = 0, verified = False,
     r_createdAt = 3, r_updatedAt = 3\<rparr>"

definition review2 :: Review where
  "review2 = \<lparr>r_id = R2, book = B1, reviewerName = ''Bob'', rating = 5,
     reviewText = ''The best of its genre'', reviewDate = 4, helpful = 2, verified = True,
     r_createdAt = 4, r_updatedAt = 4\<rparr>"

definition db1 :: db where
  "db1 = \<lparr>books = [book1, book2], reviews = [review1, review2], now = 5, writes = []\<rparr>"








definition body_book :: BookBody where
  "body_book = \<lparr>bb_title = ''The Trial'', bb_author = ''Franz Kafka'',
     bb_isbn = ''978-3-16-148410-0'', bb_publicationYear = 2020, bb_genre = ''Fiction'',
     bb_description = None, bb_publisher = None, bb_pages = None, bb_language = None,
     bb_averageRating = None, bb_numberOfReviews = None\<rparr>"









section \<open>Properties of the number model\<close>










lemma b_id_apply_book_update [simp]: "b_id (apply_book_update t u b) = b_id b"
  by (cases u) (simp_all add: apply_book_update_def)


lemma foldl_add_rating: "foldl (\<lambda>sum review. sum + rating review) a rs = a + sum_list (map rating rs)"
  by (induction rs arbitrary: a) auto

lemma totalRating_sum_list: "totalRating rs = sum_list (map rating rs)"
  by (simp add: totalRating_def foldl_add_rating)


lemma review_matches_book:
  "review_matches \<lparr>q_book = Some i, q_rating = None\<rparr> = (\<lambda>r. book r = i)"
  by (rule ext) (simp add: review_matches_def)


text \<open>At an exact tie the printed value follows the binary quotient: 201 / 200 is printed
  as 1.00 and 9 / 8 as 1.13.\<close>

lemma toFixed2_ties: "toFixed2 (fl (201 / 200)) = 100" "toFixed2 (fl (9 / 8)) = 113"
  by code_simp+

section \<open>The rating aggregate is the count and the rounded mean\<close>





lemma map_update_first:
  assumes "\<And>x. g (f x) = g x"
  shows "map g (update_first P f xs) = map g xs"
  using assms by (induction xs) auto

lemma reviews_of_eq: "Review_find \<lparr>q_book = Some i, q_rating = None\<rparr> s = reviews_of i s"
  by (simp add: Review_find_def review_matches_book reviews_of_def)

lemma updateBookRating_eq:
  "updateBookRating i s =
     snd (Book_update i (SetAggregate (fst (aggregate (reviews_of i s)))
                                      (snd (aggregate (reviews_of i s)))) s)"
  by (simp add: updateBookRating_def reviews_of_eq aggregate_def Let_def)

lemma Book_update_fields [simp]:
  "books (snd (Book_update i u s)) = update_first (\<lambda>b. b_id b = i) (apply_book_update (now s) u) (books s)"
  "reviews (snd (Book_update i u s)) = reviews s"
  "now (snd (Book_update i u s)) = now s"
  "writes (snd (Book_update i u s)) = writes s @ [Book_findByIdAndUpdate i u]"
  by (simp_all add: Book_update_def sent_def Let_def)

lemma updateBookRating_fields [simp]:
  "reviews (updateBookRating i s) = reviews s"
  "now (updateBookRating i s) = now s"
  by (simp_all add: updateBookRating_eq)


lemma reviews_of_cong: "reviews s' = reviews s \<Longrightarrow> reviews_of i s' = reviews_of i s"
  by (simp add: reviews_of_def)

lemma apply_aggregate_twice:
  "apply_book_update t (SetAggregate a n) (apply_book_update t (SetAggregate a n) b) =
   apply_book_update t (SetAggregate a n) b"
  by (simp add: apply_book_update_def)

lemma agg_apply_aggregate_twice:
  "agg (apply_book_update t' (SetAggregate a n) (apply_book_update t (SetAggregate a n) b)) =
   agg (apply_book_update t (SetAggregate a n) b)"
  by (simp add: apply_book_update_def agg_def)

lemma update_first_twice_agg:
  "map agg (update_first (\<lambda>b. b_id b = i) (apply_book_update t' (SetAggregate a n))
      (update_first (\<lambda>b. b_id b = i) (apply_book_update t (SetAggregate a n)) xs)) =
   map agg (update_first (\<lambda>b. b_id b = i) (apply_book_update t (SetAggregate a n)) xs)"
  by (induction xs) (simp_all add: agg_apply_aggregate_twice)

lemma update_first_twice:
  "update_first (\<lambda>b. b_id b = i) (apply_book_update t (SetAggregate a n))
      (update_first (\<lambda>b. b_id b = i) (apply_book_update t (SetAggregate a n)) xs) =
   update_first (\<lambda>b. b_id b = i) (apply_book_update t (SetAggregate a n)) xs"
  by (induction xs) (simp_all add: apply_aggregate_twice)

section \<open>Recomputing twice\<close>

text \<open>
  Claim C4. Recomputing the aggregate of a book twice, with the reviews unchanged in
  between, leaves the books as one recomputation leaves them; when time passes between
  the two runs only \<open>updatedAt\<close> can differ, and the id, \<open>averageRating\<close> and
  \<open>numberOfReviews\<close> of every book are the same. The reviews are not written.
\<close>

theorem updateBookRating_idempotent:
  "books (updateBookRating i (updateBookRating i s)) = books (updateBookRating i s) \<and>
   reviews (updateBookRating i (updateBookRating i s)) = reviews (updateBookRating i s) \<and>
   map agg (books (updateBookRating i ((updateBookRating i s)\<lparr>now := t\<rparr>))) =
     map agg (books (updateBookRating i s))"
proof -
  let ?s1 = "updateBookRating i s"
  have r1: "reviews_of i ?s1 = reviews_of i s" by (simp add: reviews_of_def)
  have r2: "reviews_of i (?s1\<lparr>now := t\<rparr>) = reviews_of i s" by (simp add: reviews_of_def)
  have b1: "books ?s1 = update_first (\<lambda>b. b_id b = i)
      (apply_book_update (now s) (SetAggregate (fst (aggregate (reviews_of i s))) (snd (aggregate (reviews_of i s)))))
      (books s)"
    by (simp add: updateBookRating_eq)
  have "books (updateBookRating i ?s1) = books ?s1"
    by (subst updateBookRating_eq) (simp add: r1 b1 update_first_twice)
  moreover have "map agg (books (updateBookRating i (?s1\<lparr>now := t\<rparr>))) = map agg (books ?s1)"
    by (subst updateBookRating_eq) (simp add: r2 b1 update_first_twice_agg)
  ultimately show ?thesis by simp
qed

section \<open>Creating a review\<close>

lemma validateReview_MongoId: "validateReview body = [] \<Longrightarrow> isMongoId (rb_book body)"
  by (simp add: validateReview_def split: if_splits)



section \<open>Listing reviews\<close>

text \<open>Sorting permutes the documents.\<close>

lemma mset_insert_by: "mset (insert_by le x ys) = add_mset x (mset ys)"
  by (induction ys) auto

lemma mset_sort_docs: "mset (sort_docs key ord xs) = mset xs"
  unfolding sort_docs_def by (induction xs) (simp_all add: mset_insert_by)


lemma set_sort_docs: "set (sort_docs key ord xs) = set xs"
  using mset_sort_docs[of key ord xs] by (metis set_mset_mset)




lemma reviews_get_sound:
  assumes "fst (reviews_get q s) = (200, Reviews ps)"
  shows "set (map fst ps) \<subseteq> set (reviews s)"
proof -
  from assms obtain qb qr where
    ps: "ps = map (populate s) (sort_docs
      (review_path (case rq_sort q of None \<Rightarrow> ''reviewDate'' | Some x \<Rightarrow> x))
      (if (case rq_order q of None \<Rightarrow> ''desc'' | Some x \<Rightarrow> x) = ''asc'' then 1 else - 1)
      (Review_find \<lparr>q_book = qb, q_rating = qr\<rparr> s))"
    by (auto simp: reviews_get_def Let_def split: option.splits)
  show ?thesis
    by (auto simp: ps populate_def set_sort_docs Review_find_def)
qed

section \<open>Deleting a book\<close>

lemma delete_first_filter:
  "distinct (map g xs) \<Longrightarrow> delete_first (\<lambda>x. g x = i) xs = filter (\<lambda>x. g x \<noteq> i) xs"
proof (induction xs)
  case Nil
  then show ?case by simp
next
  case (Cons x xs)
  show ?case
  proof (cases "g x = i")
    case True
    have "g x \<notin> set (map g xs)" using Cons.prems by simp
    then have "\<forall>y \<in> set xs. g y \<noteq> i" using True by (metis image_eqI list.set_map)
    then have "filter (\<lambda>x. g x \<noteq> i) xs = xs" by (simp add: filter_id_conv)
    then show ?thesis using True by simp
  next
    case False
    then show ?thesis using Cons by simp
  qed
qed

lemma find_filter_None: "find (\<lambda>x. g x = i) (filter (\<lambda>x. g x \<noteq> i) xs) = None"
  by (induction xs) auto

text \<open>
  Claim C3. Deleting a book that exists (book ids being unique, as they are in every
  reachable state, \<open>reachable_store_inv\<close>) is answered 200. The book
  is gone, and so is every review whose \<open>book\<close> is its id, and no other; the store
  receives the deletion of the book first and the deletion of its reviews second; after
  it, no listing of reviews returns a review that references the deleted book, and the
  reviews of the book are answered 404.
\<close>

theorem books_delete_cascade:
  assumes id: "isMongoId i"
    and book: "Book_findById (ObjectId_of i) s = Some b"
    and ids: "distinct (map b_id (books s))"
  shows "\<exists>s'. books_delete i s =
            ((200, Message ''Book and associated reviews deleted successfully''), s') \<and>
          books s' = filter (\<lambda>b. b_id b \<noteq> ObjectId_of i) (books s) \<and>
          Book_findById (ObjectId_of i) s' = None \<and>
          reviews s' = filter (\<lambda>r. book r \<noteq> ObjectId_of i) (reviews s) \<and>
          writes s' = writes s @ [Book_findByIdAndDelete (ObjectId_of i), Review_deleteMany (ObjectId_of i)] \<and>
          (\<forall>q ps. fst (reviews_get q s') = (200, Reviews ps) \<longrightarrow>
                  (\<forall>p \<in> set ps. book (fst p) \<noteq> ObjectId_of i)) \<and>
          fst (books_get_reviews i s') = (404, Error ''Book not found'')"
proof -
  define s' where "s' = Review_deleteMany_book (ObjectId_of i) (snd (Book_delete (ObjectId_of i) s))"
  have r: "books_delete i s = ((200, Message ''Book and associated reviews deleted successfully''), s')"
    using id book by (simp add: books_delete_def validateBookId_def Book_delete_def s'_def)
  have b: "books s' = filter (\<lambda>b. b_id b \<noteq> ObjectId_of i) (books s)"
    using delete_first_filter[OF ids]
    by (simp add: s'_def Review_deleteMany_book_def Book_delete_def sent_def)
  have f: "Book_findById (ObjectId_of i) s' = None"
    by (simp add: Book_findById_def b find_filter_None)
  have rv: "reviews s' = filter (\<lambda>r. book r \<noteq> ObjectId_of i) (reviews s)"
    by (simp add: s'_def Review_deleteMany_book_def Book_delete_def sent_def)
  have w: "writes s' = writes s @ [Book_findByIdAndDelete (ObjectId_of i), Review_deleteMany (ObjectId_of i)]"
    by (simp add: s'_def Review_deleteMany_book_def Book_delete_def sent_def)
  have l: "\<forall>q ps. fst (reviews_get q s') = (200, Reviews ps) \<longrightarrow>
                  (\<forall>p \<in> set ps. book (fst p) \<noteq> ObjectId_of i)"
  proof (intro allI impI ballI)
    fix q ps p
    assume "fst (reviews_get q s') = (200, Reviews ps)" and "p \<in> set ps"
    then have "fst p \<in> set (reviews s')" using reviews_get_sound by fastforce
    then show "book (fst p) \<noteq> ObjectId_of i" by (simp add: rv)
  qed
  have g: "fst (books_get_reviews i s') = (404, Error ''Book not found'')"
    using id f by (simp add: books_get_reviews_def validateBookId_def)
  show ?thesis using r b f rv w l g by blast
qed

theorem books_delete_cascade_witness:
  "isMongoId B1 \<and> Book_findById (ObjectId_of B1) db1 = Some book1 \<and>
   distinct (map b_id (books db1)) \<and>
   (\<exists>s'. books_delete B1 db1 =
            ((200, Message ''Book and associated reviews deleted successfully''), s') \<and>
      books s' = [book2] \<and> Book_findById B1 s' = None \<and> reviews s' = [] \<and>
      writes s' = [Book_findByIdAndDelete B1, Review_deleteMany B1])"
proof -
  have h1: "isMongoId B1" by code_simp
  have h2: "Book_findById (ObjectId_of B1) db1 = Some book1" by code_simp
  have h3: "distinct (map b_id (books db1))" by code_simp
  have i: "ObjectId_of B1 = B1" by code_simp
  have b: "filter (\<lambda>b. b_id b \<noteq> B1) (books db1) = [book2]" by code_simp
  have r: "filter (\<lambda>r. book r \<noteq> B1) (reviews db1) = []" by code_simp
  have w: "writes db1 = []" by code_simp
  show ?thesis using books_delete_cascade[OF h1 h2 h3] h1 h2 h3
    unfolding i b r w by auto
qed

section \<open>The helpful counter\<close>


lemma r_id_apply_review_update [simp]: "r_id (apply_review_update t u r) = r_id r"
  by (cases u) (simp_all add: apply_review_update_def)

lemma Review_update_fields [simp]:
  "reviews (snd (Review_update i u s)) =
     update_first (\<lambda>r. r_id r = i) (apply_review_update (now s) u) (reviews s)"
  "books (snd (Review_update i u s)) = books s"
  "now (snd (Review_update i u s)) = now s"
  "writes (snd (Review_update i u s)) = writes s @ [Review_findByIdAndUpdate i u]"
  by (simp_all add: Review_update_def sent_def Let_def)



lemma patch_state:
  "snd (reviews_patch_helpful i s) =
     (if isMongoId i then snd (Review_update (ObjectId_of i) (IncHelpful 1) s) else s)"
  by (simp add: reviews_patch_helpful_def validateReviewId_def split: prod.splits option.splits)






section \<open>Creating a book\<close>

lemma dropWhile_rev_dropWhile:
  assumes "xs = [] \<or> \<not> P (hd xs)"
  shows "dropWhile P (rev (dropWhile P (rev xs))) = rev (dropWhile P (rev xs))"
proof (cases "rev (dropWhile P (rev xs)) = []")
  case True
  then show ?thesis by (metis dropWhile.simps(1))
next
  case False
  have "rev (dropWhile P (rev xs)) = take (length xs - length (takeWhile P (rev xs))) xs"
    by (simp add: dropWhile_eq_drop rev_drop)
  then obtain n where n: "rev (dropWhile P (rev xs)) = take n xs" by blast
  with False have "xs \<noteq> []" "0 < n" by auto
  then have "hd (take n xs) = hd xs" by (cases xs; cases n) auto
  then have "\<not> P (hd (rev (dropWhile P (rev xs))))" using assms \<open>xs \<noteq> []\<close> n by simp
  then show ?thesis using False by (simp add: dropWhile_eq_self_iff)
qed

lemma trim_idem [simp]: "trim (trim s) = trim s"
proof -
  let ?u = "dropWhile isSpace s"
  have u: "?u = [] \<or> \<not> isSpace (hd ?u)" by (metis hd_dropWhile)
  have "dropWhile isSpace (trim s) = trim s"
    unfolding trim_def by (rule dropWhile_rev_dropWhile[of "dropWhile isSpace s" isSpace, OF u])
  then show ?thesis
    by (simp add: trim_def[of "trim s"]) (simp add: trim_def dropWhile_idem)
qed

lemma sanitizeBook_fields [simp]:
  "bb_isbn (sanitizeBook body) = trim (bb_isbn body)"
  "bb_title (sanitizeBook body) = trim (bb_title body)"
  "bb_author (sanitizeBook body) = trim (bb_author body)"
  by (simp_all add: sanitizeBook_def)

lemma new_Book_fields [simp]:
  "b_id (new_Book newId body t) = newId"
  "isbn (new_Book newId body t) = trim (bb_isbn body)"
  by (simp_all add: new_Book_def)

text \<open>
  Claim C8. Take a book creation request that passes the request validators and whose
  document passes the schema validators. If its (trimmed) isbn is the isbn of a persisted
  book, the reply is 400 \<open>A book with this ISBN already exists\<close> and the books are as
  before. If no persisted book has that isbn (and the generated id is new), the reply is
  201 with the new book, which is appended to the collection.
\<close>

theorem books_post_isbn_conflict:
  assumes valid: "validateBook my body = []"
    and doc: "Book_validate my (new_Book newId (sanitizeBook body) (now s))"
  shows "(trim (bb_isbn body) \<in> set (map isbn (books s)) \<longrightarrow>
            fst (books_post my newId body s) = (400, Error ''A book with this ISBN already exists'') \<and>
            books (snd (books_post my newId body s)) = books s) \<and>
         (trim (bb_isbn body) \<notin> set (map isbn (books s)) \<and> newId \<notin> set (map b_id (books s)) \<longrightarrow>
            fst (books_post my newId body s) = (201, ABook (new_Book newId (sanitizeBook body) (now s))) \<and>
            books (snd (books_post my newId body s)) =
              books s @ [new_Book newId (sanitizeBook body) (now s)])"
  using valid doc
  by (simp add: books_post_def Let_def Book_insert_def sent_def)

theorem books_post_isbn_conflict_witness:
  "validateBook 2026 body_book = [] \<and>
   Book_validate 2026 (new_Book B1 (sanitizeBook body_book) 0) \<and>
   isbn (new_Book B1 (sanitizeBook body_book) 0) = ''978-3-16-148410-0'' \<and>
   publicationYear (new_Book B1 (sanitizeBook body_book) 0) = 2020 \<and>
   genre (new_Book B1 (sanitizeBook body_book) 0) = ''Fiction'' \<and>
   fst (books_post 2026 B1 body_book (empty_db 0)) = (201, ABook (new_Book B1 (sanitizeBook body_book) 0)) \<and>
   books (snd (books_post 2026 B1 body_book (empty_db 0))) = [new_Book B1 (sanitizeBook body_book) 0] \<and>
   fst (books_post 2026 B2 body_book (snd (books_post 2026 B1 body_book (empty_db 0)))) =
     (400, Error ''A book with this ISBN already exists'') \<and>
   books (snd (books_post 2026 B2 body_book (snd (books_post 2026 B1 body_book (empty_db 0))))) =
     [new_Book B1 (sanitizeBook body_book) 0]"
proof -
  let ?s1 = "snd (books_post 2026 B1 body_book (empty_db 0))"
  have v: "validateBook 2026 body_book = []" by code_simp
  have n0: "now (empty_db 0) = 0" by (simp add: empty_db_def)
  have d0: "Book_validate 2026 (new_Book B1 (sanitizeBook body_book) 0)" by code_simp
  have d1: "Book_validate 2026 (new_Book B1 (sanitizeBook body_book) (now (empty_db 0)))"
    unfolding n0 by (rule d0)
  have e: "books (empty_db 0) = []" by (simp add: empty_db_def)
  have f: "isbn (new_Book B1 (sanitizeBook body_book) 0) = ''978-3-16-148410-0''"
    "publicationYear (new_Book B1 (sanitizeBook body_book) 0) = 2020"
    "genre (new_Book B1 (sanitizeBook body_book) 0) = ''Fiction''"
    by code_simp+
  have first: "fst (books_post 2026 B1 body_book (empty_db 0)) = (201, ABook (new_Book B1 (sanitizeBook body_book) 0))"
    "books ?s1 = [new_Book B1 (sanitizeBook body_book) 0]"
    using books_post_isbn_conflict[OF v d1] by (simp_all add: e n0)
  have n1: "now ?s1 = 0" by code_simp
  have d2: "Book_validate 2026 (new_Book B2 (sanitizeBook body_book) (now ?s1))" by code_simp
  have dup: "trim (bb_isbn body_book) \<in> set (map isbn (books ?s1))"
    unfolding first(2) by code_simp
  have second: "fst (books_post 2026 B2 body_book ?s1) = (400, Error ''A book with this ISBN already exists'')"
    "books (snd (books_post 2026 B2 body_book ?s1)) = books ?s1"
    using books_post_isbn_conflict[OF v d2] dup by simp_all
  show ?thesis
    unfolding second first(2)
    by (intro conjI refl) (rule v d0 f first(1))+
qed

section \<open>Paginating books\<close>








section \<open>The aggregate invariant\<close>

text \<open>Recomputing the aggregate of one book repairs that book and leaves the others.\<close>

lemma update_first_map:
  assumes "distinct (map g xs)" and "\<And>x. g (f x) = g x"
  shows "update_first (\<lambda>x. g x = i) f xs = map (\<lambda>x. if g x = i then f x else x) xs"
  using assms(1)
proof (induction xs)
  case Nil
  show ?case by simp
next
  case (Cons x xs)
  show ?case
  proof (cases "g x = i")
    case True
    have "g x \<notin> set (map g xs)" using Cons.prems by simp
    then have "\<forall>y \<in> set xs. g y \<noteq> i" using True by (metis image_eqI list.set_map)
    then have "map (\<lambda>x. if g x = i then f x else x) xs = xs" by (simp add: map_idI)
    then show ?thesis using True by simp
  next
    case False
    then show ?thesis using Cons by simp
  qed
qed

lemma aggregate_cong:
  assumes "map rating rs = map rating rs'"
  shows "aggregate rs = aggregate rs'"
proof -
  have l: "length rs = length rs'" using assms by (rule map_eq_imp_length_eq)
  then have e: "(rs = []) = (rs' = [])" by auto
  have t: "totalRating rs = totalRating rs'" by (simp add: totalRating_sum_list assms)
  show ?thesis by (simp add: aggregate_def l e t)
qed

lemma book_ok_agg:
  "book_ok s b = (snd (agg b) = aggregate (reviews_of (fst (agg b)) s))"
  by (simp add: book_ok_def agg_def)

lemma book_ok_cong:
  assumes "agg b' = agg b"
    and "map rating (reviews_of (b_id b) s') = map rating (reviews_of (b_id b) s)"
  shows "book_ok s' b' = book_ok s b"
proof -
  have "fst (agg b) = b_id b" by (simp add: agg_def)
  then show ?thesis
    using assms aggregate_cong[OF assms(2)] by (simp add: book_ok_agg)
qed

lemma updateBookRating_books:
  "books (updateBookRating i s) =
     update_first (\<lambda>b. b_id b = i)
       (apply_book_update (now s)
          (SetAggregate (fst (aggregate (reviews_of i s))) (snd (aggregate (reviews_of i s)))))
       (books s)"
  by (simp add: updateBookRating_eq)

lemma ids_update_first_books [simp]:
  "map b_id (update_first P (apply_book_update t u) xs) = map b_id xs"
  by (rule map_update_first) simp

lemma ids_updateBookRating [simp]: "map b_id (books (updateBookRating i s)) = map b_id (books s)"
  by (simp add: updateBookRating_books)

lemma agg_apply_SetAggregate: "agg (apply_book_update t (SetAggregate a n) b) = (b_id b, a, n)"
  by (simp add: agg_def apply_book_update_def)

lemma updateBookRating_ok_except:
  assumes d: "distinct (map b_id (books s))" and ok: "ok_except X s"
  shows "ok_except (X - {i}) (updateBookRating i s)"
proof -
  let ?s' = "updateBookRating i s"
  let ?f = "apply_book_update (now s)
          (SetAggregate (fst (aggregate (reviews_of i s))) (snd (aggregate (reviews_of i s))))"
  have bs: "books ?s' = map (\<lambda>b. if b_id b = i then ?f b else b) (books s)"
    unfolding updateBookRating_books by (rule update_first_map[OF d]) simp
  have rv: "\<And>j. reviews_of j ?s' = reviews_of j s" by (simp add: reviews_of_def)
  show ?thesis
    unfolding ok_except_def
  proof (intro ballI impI)
    fix b' assume b': "b' \<in> set (books ?s')" and nx: "b_id b' \<notin> X - {i}"
    from b' obtain b where b: "b \<in> set (books s)" and eq: "b' = (if b_id b = i then ?f b else b)"
      unfolding bs by auto
    show "book_ok ?s' b'"
    proof (cases "b_id b = i")
      case True
      then have "agg b' = (i, aggregate (reviews_of i s))"
        using eq by (simp add: agg_apply_SetAggregate)
      then show ?thesis by (simp add: book_ok_agg rv)
    next
      case False
      then have "b' = b" using eq by simp
      moreover have "b_id b \<notin> X" using nx False \<open>b' = b\<close> by simp
      then have "book_ok s b" using ok b by (simp add: ok_except_def)
      ultimately show ?thesis by (simp add: book_ok_def rv)
    qed
  qed
qed

lemma aggregates_ok_iff: "aggregates_ok s = ok_except {} s"
  by (simp add: aggregates_ok_def ok_except_def list_all_iff)

lemma store_inv_iff:
  "store_inv s = (distinct (map b_id (books s)) \<and>
     (\<forall>r \<in> set (reviews s). book r \<in> set (map b_id (books s)) \<and> ObjectId_of (book r) = book r))"
  by (simp add: store_inv_def list_all_iff)

lemma store_inv_updateBookRating [simp]: "store_inv (updateBookRating i s) = store_inv s"
  by (simp add: store_inv_def)

lemma ok_except_cong:
  assumes "ok_except Y s" and "Y \<subseteq> X" and "map agg (books s') = map agg (books s)"
    and "\<And>j. j \<notin> X \<Longrightarrow> map rating (reviews_of j s') = map rating (reviews_of j s)"
  shows "ok_except X s'"
  unfolding ok_except_def
proof (intro ballI impI)
  fix b' assume b': "b' \<in> set (books s')" and nx: "b_id b' \<notin> X"
  from b' have "agg b' \<in> set (map agg (books s))" using assms(3) by (metis image_eqI list.set_map)
  then obtain b where b: "b \<in> set (books s)" and e: "agg b' = agg b" by auto
  have i: "b_id b' = b_id b" using e by (simp add: agg_def)
  have "book_ok s b" using assms(1,2) b nx i by (auto simp: ok_except_def)
  moreover have "map rating (reviews_of (b_id b) s') = map rating (reviews_of (b_id b) s)"
    using assms(4) nx i by simp
  ultimately show "book_ok s' b'" using book_ok_cong[OF e] by simp
qed

text \<open>Each route keeps the invariant.\<close>

lemma inv_cong:
  assumes "books s' = books s" and "reviews s' = reviews s"
  shows "store_inv s' = store_inv s" and "aggregates_ok s' = aggregates_ok s"
proof -
  have "book_ok s' = book_ok s"
    by (rule ext) (simp add: book_ok_def reviews_of_def assms)
  then show "aggregates_ok s' = aggregates_ok s" by (simp add: aggregates_ok_def assms)
  show "store_inv s' = store_inv s" by (simp add: store_inv_def assms)
qed

lemma toLowerHex_idem [simp]: "toLowerHex (toLowerHex c) = toLowerHex c"
  by (simp add: toLowerHex_def)

lemma ObjectId_of_idem [simp]: "ObjectId_of (ObjectId_of x) = ObjectId_of x"
  by (simp add: ObjectId_of_def)

lemma Book_findById_Some: "Book_findById i s = Some b \<Longrightarrow> i \<in> set (map b_id (books s))"
  by (auto simp: Book_findById_def find_Some_iff)

lemma reviews_post_cases:
  "(books (snd (reviews_post n body s)) = books s \<and> reviews (snd (reviews_post n body s)) = reviews s) \<or>
   (\<exists>b. Book_findById (ObjectId_of (rb_book body)) s = Some b \<and>
      snd (reviews_post n body s) =
        updateBookRating (ObjectId_of (rb_book body))
          ((sent (Review_save n) s)\<lparr>reviews := reviews s @
             [new_Review n (ObjectId_of (rb_book body)) (sanitizeReview body) (now s)]\<rparr>))"
  by (auto simp: reviews_post_def Let_def Review_insert_def castObjectId_def sent_def
        sanitizeReview_def new_Review_def split: option.splits if_splits)

lemma reviews_post_inv:
  assumes si: "store_inv s"
  shows "store_inv (snd (reviews_post n body s)) \<and> (aggregates_ok s \<longrightarrow> aggregates_ok (snd (reviews_post n body s)))"
  using reviews_post_cases[of n body s]
proof (elim disjE exE conjE)
  assume "books (snd (reviews_post n body s)) = books s"
    and "reviews (snd (reviews_post n body s)) = reviews s"
  then show ?thesis using inv_cong si by blast
next
  fix b
  let ?i = "ObjectId_of (rb_book body)"
  let ?r = "new_Review n ?i (sanitizeReview body) (now s)"
  let ?s1 = "(sent (Review_save n) s)\<lparr>reviews := reviews s @ [?r]\<rparr>"
  assume f: "Book_findById ?i s = Some b" and e: "snd (reviews_post n body s) = updateBookRating ?i ?s1"
  have bk: "book ?r = ?i" by (simp add: new_Review_def)
  have b1: "books ?s1 = books s" by (simp add: sent_def)
  have r1: "reviews ?s1 = reviews s @ [?r]" by simp
  have d: "distinct (map b_id (books ?s1))" using si by (simp add: store_inv_def b1)
  have a: "aggregates_ok (updateBookRating ?i ?s1)" if ok: "aggregates_ok s"
  proof -
    have "ok_except {?i} ?s1"
    proof (rule ok_except_cong[of "{}" s])
      show "ok_except {} s" using ok by (simp add: aggregates_ok_iff)
      show "map agg (books ?s1) = map agg (books s)" by (simp add: b1)
      fix j assume "j \<notin> {?i}"
      then show "map rating (reviews_of j ?s1) = map rating (reviews_of j s)"
        by (simp add: reviews_of_def bk)
    qed simp
    then have "ok_except ({?i} - {?i}) (updateBookRating ?i ?s1)"
      by (rule updateBookRating_ok_except[OF d])
    then show ?thesis by (simp add: aggregates_ok_iff)
  qed
  have "store_inv ?s1"
    using si Book_findById_Some[OF f] by (simp add: store_inv_def b1 bk)
  then have "store_inv (updateBookRating ?i ?s1)" by simp
  then show ?thesis using a e by simp
qed

lemma filter_update_first_other:
  assumes "find P xs = Some x0" and "\<not> Q x0" and "\<not> Q (g x0)"
  shows "filter Q (update_first P g xs) = filter Q xs"
  using assms by (induction xs) (auto split: if_splits)

lemma filter_delete_first_other:
  assumes "find P xs = Some x0" and "\<not> Q x0"
  shows "filter Q (delete_first P xs) = filter Q xs"
  using assms by (induction xs) (auto split: if_splits)

lemma set_update_first: "set (update_first P f xs) \<subseteq> set xs \<union> f ` set xs"
  by (induction xs) auto

lemma set_delete_first: "set (delete_first P xs) \<subseteq> set xs"
  by (induction xs) auto

lemma find_None_delete_first: "find P xs = None \<Longrightarrow> delete_first P xs = xs"
  by (induction xs) (auto split: if_splits)

lemma find_None_update_first: "find P xs = None \<Longrightarrow> update_first P f xs = xs"
  by (induction xs) (auto split: if_splits)

lemma Review_findById_Some: "Review_findById i s = Some r \<Longrightarrow> r \<in> set (reviews s)"
  by (auto simp: Review_findById_def find_Some_iff)

lemma reviews_put_cases:
  "(books (snd (reviews_put i body s)) = books s \<and> reviews (snd (reviews_put i body s)) = reviews s) \<or>
   (\<exists>b old. Book_findById (ObjectId_of (rb_book body)) s = Some b \<and>
      Review_findById (ObjectId_of i) s = Some old \<and> isMongoId (rb_book body) \<and>
      snd (reviews_put i body s) =
        (if toString (book old) \<noteq> rb_book body
         then updateBookRating (ObjectId_of (rb_book body))
                (updateBookRating (book old)
                   (snd (Review_update (ObjectId_of i) (SetReview (sanitizeReview body)) s)))
         else updateBookRating (book old)
                (snd (Review_update (ObjectId_of i) (SetReview (sanitizeReview body)) s))))"
proof -
  have m: "validateReviewId i @ validateReview body = [] \<Longrightarrow> isMongoId (rb_book body)"
    by (simp add: validateReview_MongoId)
  have sb: "rb_book (sanitizeReview body) = rb_book body" by (simp add: sanitizeReview_def)
  show ?thesis
    using m
    by (cases "validateReviewId i @ validateReview body = []")
       (auto simp: reviews_put_def Let_def castObjectId_def sb case_prod_beta
             simp del: append_is_Nil_conv split: option.splits)
qed

lemma book_SetReview:
  "isMongoId (rb_book body) \<Longrightarrow>
   book (apply_review_update t (SetReview body) r) = ObjectId_of (rb_book body)"
  by (simp add: apply_review_update_def castObjectId_def)

lemma reviews_put_inv:
  assumes si: "store_inv s"
  shows "store_inv (snd (reviews_put i body s)) \<and> (aggregates_ok s \<longrightarrow> aggregates_ok (snd (reviews_put i body s)))"
  using reviews_put_cases[of i body s]
proof (elim disjE exE conjE)
  assume "books (snd (reviews_put i body s)) = books s"
    and "reviews (snd (reviews_put i body s)) = reviews s"
  then show ?thesis using inv_cong si by blast
next
  fix b :: Book and old :: Review
  let ?n = "ObjectId_of (rb_book body)"
  let ?rid = "ObjectId_of i"
  let ?body = "sanitizeReview body"
  let ?g = "apply_review_update (now s) (SetReview ?body)"
  let ?s1 = "snd (Review_update ?rid (SetReview ?body) s)"
  let ?s2 = "updateBookRating (book old) ?s1"
  assume f: "Book_findById ?n s = Some b" and o: "Review_findById ?rid s = Some old"
    and m: "isMongoId (rb_book body)"
    and e: "snd (reviews_put i body s) =
        (if toString (book old) \<noteq> rb_book body then updateBookRating ?n ?s2 else ?s2)"
  have m': "isMongoId (rb_book ?body)" using m by (simp add: sanitizeReview_def)
  have bg: "\<And>r. book (?g r) = ?n"
    using book_SetReview[OF m'] by (simp add: sanitizeReview_def)
  have fo: "find (\<lambda>r. r_id r = ?rid) (reviews s) = Some old"
    using o by (simp add: Review_findById_def)
  have d: "distinct (map b_id (books ?s1))" using si by (simp add: store_inv_def)
  have canon: "ObjectId_of (book old) = book old"
    using si Review_findById_Some[OF o] by (simp add: store_inv_iff)
  have a: "aggregates_ok (snd (reviews_put i body s))" if ok: "aggregates_ok s"
  proof -
    have ok1: "ok_except {book old, ?n} ?s1"
    proof (rule ok_except_cong[of "{}" s])
      show "ok_except {} s" using ok by (simp add: aggregates_ok_iff)
      show "map agg (books ?s1) = map agg (books s)" by simp
      fix j assume j: "j \<notin> {book old, ?n}"
      have "filter (\<lambda>r. book r = j) (update_first (\<lambda>r. r_id r = ?rid) ?g (reviews s)) =
            filter (\<lambda>r. book r = j) (reviews s)"
        using j by (intro filter_update_first_other[OF fo]) (auto simp: bg)
      then show "map rating (reviews_of j ?s1) = map rating (reviews_of j s)"
        by (simp add: reviews_of_def)
    qed simp
    have ok2: "ok_except ({book old, ?n} - {book old}) ?s2"
      by (rule updateBookRating_ok_except[OF d ok1])
    have d2: "distinct (map b_id (books ?s2))" using d by simp
    show ?thesis
    proof (cases "toString (book old) \<noteq> rb_book body")
      case True
      have ok3: "ok_except ({book old, ?n} - {book old} - {?n}) (updateBookRating ?n ?s2)"
        by (rule updateBookRating_ok_except[OF d2 ok2])
      have eq: "{book old, ?n} - {book old} - {?n} = {}" by auto
      have "ok_except {} (updateBookRating ?n ?s2)" using ok3 unfolding eq .
      then show ?thesis using True e by (simp add: aggregates_ok_iff)
    next
      case False
      then have "?n = book old" using canon by (simp add: toString_def)
      then have eq: "{book old, ?n} - {book old} = {}" by auto
      have "ok_except {} ?s2" using ok2 unfolding eq .
      then show ?thesis using False e by (simp add: aggregates_ok_iff)
    qed
  qed
  have "store_inv ?s1"
    unfolding store_inv_iff
  proof (intro conjI ballI)
    show "distinct (map b_id (books ?s1))" by (rule d)
    fix r assume "r \<in> set (reviews ?s1)"
    then have "r \<in> set (reviews s) \<or> r \<in> ?g ` set (reviews s)"
      using set_update_first[of "\<lambda>r. r_id r = ?rid" ?g "reviews s"] by auto
    then show "book r \<in> set (map b_id (books ?s1))"
      using si Book_findById_Some[OF f] by (auto simp: store_inv_iff bg)
    from \<open>r \<in> set (reviews s) \<or> r \<in> ?g ` set (reviews s)\<close>
    show "ObjectId_of (book r) = book r"
      using si by (auto simp: store_inv_iff bg)
  qed
  then have "store_inv (snd (reviews_put i body s))" using e by simp
  then show ?thesis using a by simp
qed

lemma reviews_delete_cases:
  "(books (snd (reviews_delete i s)) = books s \<and> reviews (snd (reviews_delete i s)) = reviews s) \<or>
   (\<exists>old. Review_findById (ObjectId_of i) s = Some old \<and>
      snd (reviews_delete i s) = updateBookRating (book old) (Review_delete (ObjectId_of i) s))"
  by (auto simp: reviews_delete_def Let_def split: option.splits)

lemma Review_delete_fields [simp]:
  "books (Review_delete i s) = books s"
  "reviews (Review_delete i s) = delete_first (\<lambda>r. r_id r = i) (reviews s)"
  by (simp_all add: Review_delete_def sent_def)

lemma reviews_delete_inv:
  assumes si: "store_inv s"
  shows "store_inv (snd (reviews_delete i s)) \<and> (aggregates_ok s \<longrightarrow> aggregates_ok (snd (reviews_delete i s)))"
  using reviews_delete_cases[of i s]
proof (elim disjE exE conjE)
  assume "books (snd (reviews_delete i s)) = books s"
    and "reviews (snd (reviews_delete i s)) = reviews s"
  then show ?thesis using inv_cong si by blast
next
  fix old :: Review
  let ?rid = "ObjectId_of i"
  let ?s1 = "Review_delete ?rid s"
  assume o: "Review_findById ?rid s = Some old"
    and e: "snd (reviews_delete i s) = updateBookRating (book old) ?s1"
  have fo: "find (\<lambda>r. r_id r = ?rid) (reviews s) = Some old"
    using o by (simp add: Review_findById_def)
  have d: "distinct (map b_id (books ?s1))" using si by (simp add: store_inv_def)
  have a: "aggregates_ok (snd (reviews_delete i s))" if ok: "aggregates_ok s"
  proof -
    have ok1: "ok_except {book old} ?s1"
    proof (rule ok_except_cong[of "{}" s])
      show "ok_except {} s" using ok by (simp add: aggregates_ok_iff)
      show "map agg (books ?s1) = map agg (books s)" by simp
      fix j assume j: "j \<notin> {book old}"
      have "filter (\<lambda>r. book r = j) (delete_first (\<lambda>r. r_id r = ?rid) (reviews s)) =
            filter (\<lambda>r. book r = j) (reviews s)"
        using j by (intro filter_delete_first_other[OF fo]) auto
      then show "map rating (reviews_of j ?s1) = map rating (reviews_of j s)"
        by (simp add: reviews_of_def)
    qed simp
    have ok2: "ok_except ({book old} - {book old}) (updateBookRating (book old) ?s1)"
      by (rule updateBookRating_ok_except[OF d ok1])
    have eq: "{book old} - {book old} = {}" by auto
    have "ok_except {} (updateBookRating (book old) ?s1)" using ok2 unfolding eq .
    then show ?thesis using e by (simp add: aggregates_ok_iff)
  qed
  have "store_inv ?s1"
    using si set_delete_first[of "\<lambda>r. r_id r = ?rid" "reviews s"]
    by (auto simp: store_inv_iff)
  then have "store_inv (snd (reviews_delete i s))" using e by simp
  then show ?thesis using a by simp
qed

lemma apply_IncHelpful [simp]:
  "book (apply_review_update t (IncHelpful k) r) = book r"
  "rating (apply_review_update t (IncHelpful k) r) = rating r"
  by (simp_all add: apply_review_update_def)

lemma filter_map_update_first:
  assumes "\<And>x. Q (g x) = Q x" and "\<And>x. h (g x) = h x"
  shows "map h (filter Q (update_first P g xs)) = map h (filter Q xs)"
  using assms by (induction xs) auto

lemma reviews_patch_helpful_inv:
  assumes si: "store_inv s"
  shows "store_inv (snd (reviews_patch_helpful i s)) \<and> (aggregates_ok s \<longrightarrow> aggregates_ok (snd (reviews_patch_helpful i s)))"
proof (cases "isMongoId i")
  case False
  then have "snd (reviews_patch_helpful i s) = s" by (simp add: patch_state)
  then show ?thesis using si by simp
next
  case True
  let ?rid = "ObjectId_of i"
  let ?g = "apply_review_update (now s) (IncHelpful 1)"
  let ?s1 = "snd (Review_update ?rid (IncHelpful 1) s)"
  have e: "snd (reviews_patch_helpful i s) = ?s1" using True by (simp add: patch_state)
  have a: "aggregates_ok ?s1" if ok: "aggregates_ok s"
  proof -
    have "ok_except {} ?s1"
    proof (rule ok_except_cong[of "{}" s])
      show "ok_except {} s" using ok by (simp add: aggregates_ok_iff)
      show "map agg (books ?s1) = map agg (books s)" by simp
      fix j :: objectid
      show "map rating (reviews_of j ?s1) = map rating (reviews_of j s)"
        by (simp add: reviews_of_def filter_map_update_first)
    qed simp
    then show ?thesis by (simp add: aggregates_ok_iff)
  qed
  have "store_inv ?s1"
    using si set_update_first[of "\<lambda>r. r_id r = ?rid" ?g "reviews s"]
    by (auto simp: store_inv_iff)
  then show ?thesis using a e by simp
qed

lemma books_post_cases:
  "(books (snd (books_post my n body s)) = books s \<and> reviews (snd (books_post my n body s)) = reviews s) \<or>
   (n \<notin> set (map b_id (books s)) \<and>
    books (snd (books_post my n body s)) = books s @ [new_Book n (sanitizeBook body) (now s)] \<and>
    reviews (snd (books_post my n body s)) = reviews s)"
  by (auto simp: books_post_def Let_def Book_insert_def sent_def split: if_splits)

lemma agg_new_Book:
  "bb_averageRating body = None \<Longrightarrow> bb_numberOfReviews body = None \<Longrightarrow>
   agg (new_Book n (sanitizeBook body) t) = (n, 0, 0)"
  by (simp add: agg_def new_Book_def sanitizeBook_def)

lemma books_post_inv:
  assumes si: "store_inv s"
  shows "store_inv (snd (books_post my n body s)) \<and>
         (aggregates_ok s \<longrightarrow> bb_averageRating body = None \<and> bb_numberOfReviews body = None \<longrightarrow>
            aggregates_ok (snd (books_post my n body s)))"
  using books_post_cases[of my n body s]
proof (elim disjE conjE)
  assume "books (snd (books_post my n body s)) = books s"
    and "reviews (snd (books_post my n body s)) = reviews s"
  then show ?thesis using inv_cong si by blast
next
  let ?s' = "snd (books_post my n body s)"
  let ?doc = "new_Book n (sanitizeBook body) (now s)"
  assume fresh: "n \<notin> set (map b_id (books s))"
    and b: "books ?s' = books s @ [?doc]" and r: "reviews ?s' = reviews s"
  have st: "store_inv ?s'" using si fresh by (auto simp: store_inv_iff b r)
  have a: "aggregates_ok ?s'"
    if ok: "aggregates_ok s" and none: "bb_averageRating body = None \<and> bb_numberOfReviews body = None"
  proof -
    have ro: "\<And>j. reviews_of j ?s' = reviews_of j s" by (simp add: reviews_of_def r)
    have "reviews_of n s = []"
      using si fresh by (auto simp: reviews_of_def store_inv_iff filter_empty_conv)
    then have "book_ok ?s' ?doc"
      using agg_new_Book[of body n "now s"] none by (simp add: book_ok_agg ro aggregate_def)
    moreover have "\<forall>x \<in> set (books s). book_ok ?s' x"
      using ok by (simp add: aggregates_ok_def list_all_iff book_ok_def ro)
    ultimately show ?thesis by (simp add: aggregates_ok_def list_all_iff b)
  qed
  show ?thesis using st a by simp
qed

lemma Book_replace_state:
  "(books (snd (Book_replace my i body s)) = books s \<and>
    reviews (snd (Book_replace my i body s)) = reviews s) \<or>
   (books (snd (Book_replace my i body s)) =
      update_first (\<lambda>b. b_id b = i) (apply_book_update (now s) (SetBook body)) (books s) \<and>
    reviews (snd (Book_replace my i body s)) = reviews s)"
  by (simp add: Book_replace_def case_prod_beta sent_def)

lemma books_put_state:
  "snd (books_put my i body s) =
     (if validateBookId i @ validateBook my body \<noteq> [] then s
      else snd (Book_replace my (ObjectId_of i) (sanitizeBook body) s))"
proof (cases "Book_replace my (ObjectId_of i) (sanitizeBook body) s")
  case (Pair x s1)
  then show ?thesis
    by (cases x) (auto simp: books_put_def Let_def simp del: append_is_Nil_conv split: option.splits)
qed

lemma books_put_cases:
  "(books (snd (books_put my i body s)) = books s \<and> reviews (snd (books_put my i body s)) = reviews s) \<or>
   (books (snd (books_put my i body s)) =
      update_first (\<lambda>b. b_id b = ObjectId_of i)
        (apply_book_update (now s) (SetBook (sanitizeBook body))) (books s) \<and>
    reviews (snd (books_put my i body s)) = reviews s)"
  using Book_replace_state[of my "ObjectId_of i" "sanitizeBook body" s]
  by (auto simp: books_put_state simp del: append_is_Nil_conv)

lemma agg_apply_SetBook:
  "bb_averageRating body = None \<Longrightarrow> bb_numberOfReviews body = None \<Longrightarrow>
   agg (apply_book_update t (SetBook (sanitizeBook body)) b) = agg b"
  by (simp add: agg_def apply_book_update_def sanitizeBook_def)

lemma books_put_inv:
  assumes si: "store_inv s"
  shows "store_inv (snd (books_put my i body s)) \<and>
         (aggregates_ok s \<longrightarrow> bb_averageRating body = None \<and> bb_numberOfReviews body = None \<longrightarrow>
            aggregates_ok (snd (books_put my i body s)))"
  using books_put_cases[of my i body s]
proof (elim disjE conjE)
  assume "books (snd (books_put my i body s)) = books s"
    and "reviews (snd (books_put my i body s)) = reviews s"
  then show ?thesis using inv_cong si by blast
next
  let ?s' = "snd (books_put my i body s)"
  let ?f = "apply_book_update (now s) (SetBook (sanitizeBook body))"
  assume b: "books ?s' = update_first (\<lambda>b. b_id b = ObjectId_of i) ?f (books s)"
    and r: "reviews ?s' = reviews s"
  have st: "store_inv ?s'" using si by (simp add: store_inv_def b r)
  have a: "aggregates_ok ?s'"
    if ok: "aggregates_ok s" and none: "bb_averageRating body = None \<and> bb_numberOfReviews body = None"
  proof -
    have "ok_except {} ?s'"
    proof (rule ok_except_cong[of "{}" s])
      show "ok_except {} s" using ok by (simp add: aggregates_ok_iff)
      show "map agg (books ?s') = map agg (books s)"
        unfolding b using none by (intro map_update_first agg_apply_SetBook) simp_all
      fix j :: objectid
      show "map rating (reviews_of j ?s') = map rating (reviews_of j s)"
        by (simp add: reviews_of_def r)
    qed simp
    then show ?thesis by (simp add: aggregates_ok_iff)
  qed
  show ?thesis using st a by simp
qed

lemma books_delete_cases:
  "(books (snd (books_delete i s)) = books s \<and> reviews (snd (books_delete i s)) = reviews s) \<or>
   (books (snd (books_delete i s)) = delete_first (\<lambda>b. b_id b = ObjectId_of i) (books s) \<and>
    reviews (snd (books_delete i s)) = filter (\<lambda>r. book r \<noteq> ObjectId_of i) (reviews s))"
  by (auto simp: books_delete_def Let_def Book_delete_def Review_deleteMany_book_def sent_def
        Book_findById_def find_None_delete_first split: option.splits)

lemma books_delete_inv:
  assumes si: "store_inv s"
  shows "store_inv (snd (books_delete i s)) \<and>
         (aggregates_ok s \<longrightarrow> aggregates_ok (snd (books_delete i s)))"
  using books_delete_cases[of i s]
proof (elim disjE conjE)
  assume "books (snd (books_delete i s)) = books s"
    and "reviews (snd (books_delete i s)) = reviews s"
  then show ?thesis using inv_cong si by blast
next
  let ?s' = "snd (books_delete i s)"
  let ?i = "ObjectId_of i"
  assume b0: "books ?s' = delete_first (\<lambda>b. b_id b = ?i) (books s)"
    and r: "reviews ?s' = filter (\<lambda>r. book r \<noteq> ?i) (reviews s)"
  have d: "distinct (map b_id (books s))" using si by (simp add: store_inv_def)
  have b: "books ?s' = filter (\<lambda>b. b_id b \<noteq> ?i) (books s)"
    unfolding b0 by (rule delete_first_filter[OF d])
  have st: "store_inv ?s'"
    using si by (auto simp: store_inv_iff b r distinct_map_filter)
  have a: "aggregates_ok ?s'" if ok: "aggregates_ok s"
  proof -
    have "\<forall>x \<in> set (books ?s'). book_ok ?s' x"
    proof
      fix x assume x: "x \<in> set (books ?s')"
      then have xs: "x \<in> set (books s)" and ne: "b_id x \<noteq> ?i" by (simp_all add: b)
      have "reviews_of (b_id x) ?s' = reviews_of (b_id x) s"
        using ne by (auto simp: reviews_of_def r intro: filter_cong)
      moreover have "book_ok s x" using ok xs by (simp add: aggregates_ok_def list_all_iff)
      ultimately show "book_ok ?s' x" by (simp add: book_ok_def)
    qed
    then show ?thesis by (simp add: aggregates_ok_def list_all_iff)
  qed
  show ?thesis using st a by simp
qed

lemma get_state [simp]:
  "snd (books_get re bq s) = s"
  "snd (books_get_id i s) = s"
  "snd (books_get_reviews i s) = s"
  "snd (reviews_get rq s) = s"
  "snd (reviews_get_id i s) = s"
  by (simp_all add: books_get_def books_get_id_def books_get_reviews_def reviews_get_def
        reviews_get_id_def Let_def split: option.splits sum.splits prod.splits)

lemma handle_inv:
  assumes si: "store_inv s"
  shows "store_inv (snd (handle re my req s)) \<and>
         (aggregates_ok s \<longrightarrow> \<not> sets_aggregate req \<longrightarrow> aggregates_ok (snd (handle re my req s)))"
proof (cases req)
  case (PostBook n body)
  then show ?thesis using books_post_inv[OF si, of my n body] by simp
next
  case (PutBook i body)
  then show ?thesis using books_put_inv[OF si, of my i body] by simp
next
  case (DeleteBook i)
  then show ?thesis using books_delete_inv[OF si, of i] by simp
next
  case (PostReview n body)
  then show ?thesis using reviews_post_inv[OF si, of n body] by simp
next
  case (PutReview i body)
  then show ?thesis using reviews_put_inv[OF si, of i body] by simp
next
  case (DeleteReview i)
  then show ?thesis using reviews_delete_inv[OF si, of i] by simp
next
  case (PatchHelpful i)
  then show ?thesis using reviews_patch_helpful_inv[OF si, of i] by simp
qed (simp_all add: si)

lemma empty_db_inv: "store_inv (empty_db t) \<and> aggregates_ok (empty_db t)"
  by (simp add: store_inv_def aggregates_ok_def empty_db_def)

lemma tick_inv: "store_inv (s\<lparr>now := t\<rparr>) = store_inv s" "aggregates_ok (s\<lparr>now := t\<rparr>) = aggregates_ok s"
  by (rule inv_cong; simp)+

lemma reachable_store_inv: "reachable re my s \<Longrightarrow> store_inv s"
proof (induction rule: reachable.induct)
  case (start t)
  show ?case by (simp add: empty_db_inv)
next
  case (request s req)
  then show ?case using handle_inv by blast
next
  case (tick s t)
  then show ?case by (simp add: tick_inv)
qed




section \<open>Updating a review\<close>



lemma Review_findById_cong: "reviews s' = reviews s \<Longrightarrow> Review_findById j s' = Review_findById j s"
  by (simp add: Review_findById_def)





section \<open>Ratings stay in range\<close>

text \<open>Every review of a reachable state has a rating between 1 and 5: a review is
  written only after both validators accepted its rating.\<close>

lemma reviews_post_rated:
  "set (reviews (snd (reviews_post n body s))) \<subseteq> set (reviews s) \<union> Collect rated"
  by (auto simp: reviews_post_def Let_def Review_insert_def castObjectId_def sent_def
        Review_validate_def rated_def split: option.splits if_splits)

lemma reviews_put_rated:
  "set (reviews (snd (reviews_put i body s))) \<subseteq> set (reviews s) \<union> Collect rated"
proof (cases "validateReviewId i @ validateReview body = [] \<and> review_update_valid (sanitizeReview body)")
  case False
  then show ?thesis
    by (auto simp: reviews_put_def Let_def simp del: append_is_Nil_conv split: option.splits)
next
  case True
  let ?g = "apply_review_update (now s) (SetReview (sanitizeReview body))"
  have g: "\<And>r. rated (?g r)"
    using True by (simp add: rated_def apply_review_update_def review_update_valid_def)
  have "set (reviews (snd (reviews_put i body s))) \<subseteq> set (reviews s) \<union> ?g ` set (reviews s)"
    using reviews_put_cases[of i body s]
      set_update_first[of "\<lambda>r. r_id r = ObjectId_of i" ?g "reviews s"]
    by (auto split: if_splits)
  then show ?thesis using g by auto
qed

lemma reviews_delete_rated:
  "set (reviews (snd (reviews_delete i s))) \<subseteq> set (reviews s)"
  using reviews_delete_cases[of i s] set_delete_first[of "\<lambda>r. r_id r = ObjectId_of i" "reviews s"]
  by auto

lemma reviews_patch_rated:
  "rated ` set (reviews (snd (reviews_patch_helpful i s))) \<subseteq> rated ` set (reviews s)"
proof -
  have "map rated (update_first (\<lambda>r. r_id r = ObjectId_of i)
          (apply_review_update (now s) (IncHelpful 1)) (reviews s)) = map rated (reviews s)"
    by (rule map_update_first) (simp add: rated_def)
  then have "rated ` set (update_first (\<lambda>r. r_id r = ObjectId_of i)
          (apply_review_update (now s) (IncHelpful 1)) (reviews s)) = rated ` set (reviews s)"
    by (metis list.set_map)
  then show ?thesis by (simp add: patch_state)
qed

lemma handle_rated:
  assumes "list_all rated (reviews s)"
  shows "list_all rated (reviews (snd (handle re my req s)))"
proof (cases req)
  case (PostBook n body)
  then show ?thesis using assms books_post_cases[of my n body s] by auto
next
  case (PutBook i body)
  then show ?thesis using assms books_put_cases[of my i body s] by auto
next
  case (DeleteBook i)
  then show ?thesis using assms books_delete_cases[of i s] by (auto simp: list_all_iff)
next
  case (PostReview n body)
  then show ?thesis using assms reviews_post_rated[of n body s] by (auto simp: list_all_iff)
next
  case (PutReview i body)
  then show ?thesis using assms reviews_put_rated[of i body s] by (auto simp: list_all_iff)
next
  case (DeleteReview i)
  then show ?thesis using assms reviews_delete_rated[of i s] by (auto simp: list_all_iff)
next
  case (PatchHelpful i)
  then show ?thesis using assms reviews_patch_rated[of i s] by (auto simp: list_all_iff)
qed (simp_all add: assms)

lemma reachable_rated: "reachable re my s \<Longrightarrow> list_all rated (reviews s)"
proof (induction rule: reachable.induct)
  case (start t)
  show ?case by (simp add: empty_db_def)
next
  case (request s req)
  from request.IH show ?case by (rule handle_rated)
next
  case (tick s t)
  then show ?case by simp
qed

end
